theory Spec2Isabelle
  imports Main "HOL-Library.Sublist"
begin

section \<open>Strings\<close>

text \<open>
  A JavaScript string is the list of its UTF-16 code units; \<open>js\<close> writes out an ASCII literal.
  White space is what \<^verbatim>\<open>trim\<close> removes and \<^verbatim>\<open>\s\<close> matches (the same set for both): TAB, LF, VT,
  FF, CR, SPACE, U+00A0, U+1680, U+2000 to U+200A, U+2028, U+2029, U+202F, U+205F, U+3000
  and U+FEFF. The digits of \<^verbatim>\<open>\d\<close> are 0 to 9.
\<close>

type_synonym jsstring = "nat list"

primrec js :: "string \<Rightarrow> jsstring" where
  "js [] = []"
| "js (c # cs) = of_char c # js cs"

definition isWhiteSpace :: "nat \<Rightarrow> bool" where
  "isWhiteSpace c =
     (c \<in> set [0x09, 0x0A, 0x0B, 0x0C, 0x0D, 0x20, 0xA0, 0x1680, 0x2028, 0x2029, 0x202F,
                0x205F, 0x3000, 0xFEFF]
      \<or> (0x2000 \<le> c \<and> c \<le> 0x200A))"

definition isDigit :: "nat \<Rightarrow> bool" where
  "isDigit c = (0x30 \<le> c \<and> c \<le> 0x39)"

definition newline :: nat where
  "newline = 0x0A"

text \<open>
  \<^verbatim>\<open>toLowerCase\<close> is the runtime's: it is a parameter of the function that calls it. The instance
  below is used where a statement needs a concrete one. It lower-cases A to Z, U+0130 (to
  \<^verbatim>\<open>i\<close> and U+0307) and the Kelvin sign U+212A (to \<^verbatim>\<open>k\<close>): these are the code units whose lower
  case contains an ASCII character. It keeps every other code unit, where the runtime maps some
  of them to code units outside ASCII; this does not change where an ASCII text occurs in the
  result.
\<close>

definition toLowerUnit :: "nat \<Rightarrow> jsstring" where
  "toLowerUnit c =
     (if 0x41 \<le> c \<and> c \<le> 0x5A then [c + 0x20]
      else if c = 0x130 then [0x69, 0x307]
      else if c = 0x212A then [0x6B]
      else [c])"

definition toLowerCase :: "jsstring \<Rightarrow> jsstring" where
  "toLowerCase s = concat (map toLowerUnit s)"

text \<open>\<^verbatim>\<open>s.trim()\<close> removes the white space at both ends.\<close>

definition trim :: "jsstring \<Rightarrow> jsstring" where
  "trim s = rev (dropWhile isWhiteSpace (rev (dropWhile isWhiteSpace s)))"

text \<open>\<^verbatim>\<open>s.substr(0, n)\<close>: the first \<open>n\<close> code units, all of \<open>s\<close> when it is shorter.\<close>

definition substr0 :: "nat \<Rightarrow> jsstring \<Rightarrow> jsstring" where
  "substr0 n s = take n s"

text \<open>\<^verbatim>\<open>s.includes(k)\<close>: \<open>k\<close> occurs in \<open>s\<close> at some position.\<close>

fun includes_str :: "jsstring \<Rightarrow> jsstring \<Rightarrow> bool" where
  "includes_str [] k = (k = [])"
| "includes_str (c # cs) k = (prefix k (c # cs) \<or> includes_str cs k)"

section \<open>Regular expressions\<close>

text \<open>
  The regular expressions of the source are built from literals, character classes,
  sequence, alternation, \<^verbatim>\<open>?\<close>, \<^verbatim>\<open>+\<close> and \<^verbatim>\<open>{n}\<close>; they have no \<^verbatim>\<open>u\<close> flag, so they work on
  code units. \<open>ms r s\<close> lists what is left of \<open>s\<close> after each way of matching \<open>r\<close> at its
  start, in the order a backtracking matcher tries them (the left alternative first, the longest
  repetition first): the head of the list is the match the runtime reports. An iteration of
  \<^verbatim>\<open>+\<close> that consumes nothing ends the repetition.
\<close>

datatype regex =
    Eps
  | Chr nat
  | Cls "nat \<Rightarrow> bool"
  | Seq regex regex
  | Alt regex regex
  | Opt regex
  | Plus regex

function ms :: "regex \<Rightarrow> jsstring \<Rightarrow> jsstring list" where
  "ms Eps s = [s]"
| "ms (Chr c) s = (case s of [] \<Rightarrow> [] | x # xs \<Rightarrow> if x = c then [xs] else [])"
| "ms (Cls P) s = (case s of [] \<Rightarrow> [] | x # xs \<Rightarrow> if P x then [xs] else [])"
| "ms (Seq a b) s = concat (map (ms b) (ms a s))"
| "ms (Alt a b) s = ms a s @ ms b s"
| "ms (Opt a) s = ms a s @ [s]"
| "ms (Plus a) s =
     concat (map (\<lambda>t. if length t < length s then ms (Plus a) t @ [t] else [t]) (ms a s))"
  by pat_completeness auto
termination
  by (relation "measures [\<lambda>(r, s). size r, \<lambda>(r, s). length s]") auto

fun lit :: "jsstring \<Rightarrow> regex" where
  "lit [] = Eps"
| "lit (c # cs) = Seq (Chr c) (lit cs)"

fun rep :: "nat \<Rightarrow> regex \<Rightarrow> regex" where
  "rep 0 r = Eps"
| "rep (Suc n) r = Seq r (rep n r)"

text \<open>The text matched at the start of \<open>s\<close>, if any.\<close>

definition exec :: "regex \<Rightarrow> jsstring \<Rightarrow> jsstring option" where
  "exec r s = (case ms r s of [] \<Rightarrow> None | t # _ \<Rightarrow> Some (take (length s - length t) s))"

text \<open>
  \<^verbatim>\<open>s.replace(/r/g, ...)\<close>: the matches are taken from left to right, each search starting
  where the last match ended (one code unit further after an empty match); the text between
  matches is copied. \<open>f m\<close> is the replacement for the matched text \<open>m\<close>. None of the
  expressions of the source looks at the text before the position it is tried at.
\<close>

function replaceAll :: "regex \<Rightarrow> (jsstring \<Rightarrow> jsstring) \<Rightarrow> jsstring \<Rightarrow> jsstring" where
  "replaceAll r f s =
     (case s of
        [] \<Rightarrow> (case exec r [] of None \<Rightarrow> [] | Some m \<Rightarrow> f m)
      | c # cs \<Rightarrow>
          (case exec r s of
             None \<Rightarrow> c # replaceAll r f cs
           | Some m \<Rightarrow>
               if m = [] then f m @ c # replaceAll r f cs
               else f m @ replaceAll r f (drop (length m) s)))"
  by pat_completeness auto
termination
  by (relation "measure (\<lambda>(r, f, s). length s)") auto

text \<open>
  A replacement string in which \<^verbatim>\<open>$1\<close> stands for the first group. In the two expressions
  that use one, the first group is the whole match, and \<^verbatim>\<open>$1\<close> is the only \<^verbatim>\<open>$\<close> pattern of
  their replacement strings.
\<close>

fun substitute :: "jsstring \<Rightarrow> jsstring \<Rightarrow> jsstring" where
  "substitute (a # b # cs) m =
     (if a = 0x24 \<and> b = 0x31 then m @ substitute cs m else a # substitute (b # cs) m)"
| "substitute [a] m = [a]"
| "substitute [] m = []"

section \<open>MessageFormatter\<close>

subsection \<open>sanitizeHTML\<close>

text \<open>
  The text is stored in a fresh element and read back as markup: the browser writes
  \<^verbatim>\<open>&\<close>, \<^verbatim>\<open><\<close>, \<^verbatim>\<open>>\<close> and the no-break space U+00A0 of a text node as character references.
\<close>

definition escapeChar :: "nat \<Rightarrow> jsstring" where
  "escapeChar c =
     (if c = 0x26 then js ''&amp;''
      else if c = 0xA0 then js ''&nbsp;''
      else if c = 0x3C then js ''&lt;''
      else if c = 0x3E then js ''&gt;''
      else [c])"

definition sanitizeHTML :: "jsstring \<Rightarrow> jsstring" where
  "sanitizeHTML content = concat (map escapeChar content)"

subsection \<open>formatMessage\<close>

definition newlineRegex :: regex where
  "newlineRegex = Chr newline"

definition urlRegex :: regex where
  "urlRegex =
     Seq (lit (js ''http'')) (Seq (Opt (Chr 0x73))
       (Seq (lit (js ''://'')) (Plus (Cls (\<lambda>c. \<not> isWhiteSpace c)))))"

definition phoneRegex :: regex where
  "phoneRegex = Alt (Seq (lit (js ''+254'')) (rep 9 (Cls isDigit))) (rep 10 (Cls isDigit))"

definition urlReplacement :: jsstring where
  \<open>urlReplacement = js ''<a href="$1" target="_blank" rel="noopener noreferrer">$1</a>''\<close>

definition phoneReplacement :: jsstring where
  \<open>phoneReplacement = js ''<a href="tel:$1">$1</a>''\<close>

definition formatMessage :: "jsstring \<Rightarrow> bool \<Rightarrow> jsstring" where
  "formatMessage content allowHTML =
     (if content = [] then []
      else
        let formatted = (if allowHTML then content else sanitizeHTML content);
            formatted = replaceAll newlineRegex (\<lambda>_. js ''<br>'') formatted;
            formatted = replaceAll urlRegex (substitute urlReplacement) formatted;
            formatted = replaceAll phoneRegex (substitute phoneReplacement) formatted
        in formatted)"

subsection \<open>formatUserInput\<close>

definition whitespaceRegex :: regex where
  "whitespaceRegex = Plus (Cls isWhiteSpace)"

definition formatUserInput :: "jsstring \<Rightarrow> jsstring" where
  "formatUserInput input =
     (if input = [] then []
      else
        let formatted = trim input;
            formatted = replaceAll whitespaceRegex (\<lambda>_. js '' '') formatted;
            formatted = substr0 1000 formatted
        in formatted)"

subsection \<open>detectCrisisIndicators\<close>

definition crisisKeywords :: "jsstring list" where
  "crisisKeywords =
    [js ''suicide'', js ''kill myself'', js ''end it all'', js ''don'' @ [0x27] @ js ''t want to live'',
     js ''cutting'', js ''self harm'', js ''overdose'', js ''emergency'',
     js ''kujiua'', js ''kufa'', js ''maumivu'', js ''tatizo kubwa'',
     js ''msaada wa haraka'', js ''emergency'', js ''hospitali'']"

text \<open>The first argument is the runtime's \<^verbatim>\<open>toLowerCase\<close>.\<close>

definition detectCrisisIndicators :: "(jsstring \<Rightarrow> jsstring) \<Rightarrow> jsstring \<Rightarrow> bool" where
  "detectCrisisIndicators toLower message =
     (let messageLower = toLower message
      in list_ex (\<lambda>keyword. includes_str messageLower keyword) crisisKeywords)"


subsection \<open>The translation tables\<close>

text \<open>The warning sign of the two titles is U+26A0 followed by U+FE0F.\<close>

definition warningSign :: jsstring where
  "warningSign = [0x26A0, 0xFE0F]"

definition translations_en :: "(jsstring \<times> jsstring) list" where
  "translations_en =
    [(js ''typing'', js ''Mazungumzo is typing...''),
     (js ''sendButton'', js ''Send''),
     (js ''placeholder'', js ''Type your message...''),
     (js ''crisisTitle'', warningSign @ js '' Crisis Support Detected''),
     (js ''crisisMessage'', js ''I see you might need immediate help. Please contact:''),
     (js ''errorMessage'', js ''Sorry, there was a technical issue. Please try again.''),
     (js ''welcomeMessage'', js ''Hello! I'' @ [0x27] @ js ''m Mazungumzo, your mental health companion. I can help you in English or Swahili. How are you feeling today?'')]"

definition translations_sw :: "(jsstring \<times> jsstring) list" where
  "translations_sw =
    [(js ''typing'', js ''Mazungumzo anaandika...''),
     (js ''sendButton'', js ''Tuma''),
     (js ''placeholder'', js ''Andika ujumbe wako...''),
     (js ''crisisTitle'', warningSign @ js '' Msaada wa Haraka Umegundulika''),
     (js ''crisisMessage'', js ''Naona unaweza kuhitaji msaada wa haraka. Tafadhali wasiliana na:''),
     (js ''errorMessage'', js ''Pole sana, kuna tatizo la kiufundi. Tafadhali jaribu tena.''),
     (js ''welcomeMessage'', js ''Hujambo! Mimi ni Mazungumzo, rafiki yako wa kusaidia katika mambo ya afya ya akili. Naweza kukusaidia kwa lugha ya Kiingereza au Kiswahili. Unahisije leo?'')]"

definition translationsTable :: "(jsstring \<times> (jsstring \<times> jsstring) list) list" where
  "translationsTable = [(js ''en'', translations_en), (js ''sw'', translations_sw)]"

subsection \<open>Property access\<close>

text \<open>
  The tables are plain objects: \<^verbatim>\<open>obj[name]\<close> gives the object's own property of that name
  and, when it has none, the property that it inherits from \<^verbatim>\<open>Object.prototype\<close>
  (\<^verbatim>\<open>constructor\<close>, \<^verbatim>\<open>toString\<close>, \<^verbatim>\<open>__proto__\<close> and so on). What \<^verbatim>\<open>Object.prototype\<close> holds is
  the runtime's, so the runtime is a parameter:
  \<^item> \<open>inheritedProp rt name\<close> is the property of that name of \<^verbatim>\<open>Object.prototype\<close>, if there
    is one. Such a value is a function or an object, never a string and never falsy; it is
    given by the text it has when it is converted to a string.
  \<^item> \<open>nativeRead rt name key\<close> is the result of reading the property \<open>key\<close> of that value:
    the error thrown by a getter, or the value read, with \<open>None\<close> for a falsy one.
  A value is a string (\<open>Text\<close>) or something else that is truthy (\<open>Other\<close>, with its text).
\<close>

datatype error = Error jsstring

datatype jsvalue = Text jsstring | Other jsstring

record runtime =
  inheritedProp :: "jsstring \<Rightarrow> jsstring option"
  nativeRead :: "jsstring \<Rightarrow> jsstring \<Rightarrow> error + jsvalue option"

text \<open>\<^verbatim>\<open>table[key]\<close> for one of the two tables.\<close>

definition tableGet :: "runtime \<Rightarrow> (jsstring \<times> jsstring) list \<Rightarrow> jsstring \<Rightarrow> jsvalue option" where
  "tableGet rt t key =
     (case map_of t key of
        Some s \<Rightarrow> Some (Text s)
      | None \<Rightarrow> map_option Other (inheritedProp rt key))"

fun truthy_value :: "jsvalue option \<Rightarrow> bool" where
  "truthy_value None = False"
| "truthy_value (Some (Text s)) = (s \<noteq> [])"
| "truthy_value (Some (Other v)) = True"

text \<open>\<^verbatim>\<open>a || b\<close>\<close>

definition js_or :: "jsvalue option \<Rightarrow> jsvalue option \<Rightarrow> jsvalue option" where
  "js_or a b = (if truthy_value a then a else b)"

subsection \<open>translate\<close>

text \<open>
  The language defaults to \<^verbatim>\<open>en\<close> when it is not given. \<^verbatim>\<open>translations[language]\<close> is one of
  the two tables, or a value inherited from \<^verbatim>\<open>Object.prototype\<close>, or \<^verbatim>\<open>undefined\<close>, for which
  \<^verbatim>\<open>?.\<close> gives \<^verbatim>\<open>undefined\<close>. Only reading a property of an inherited value can throw.
\<close>

definition translate :: "runtime \<Rightarrow> jsstring \<Rightarrow> jsstring option \<Rightarrow> error + jsvalue" where
  "translate rt key language =
     (let language = (case language of None \<Rightarrow> js ''en'' | Some l \<Rightarrow> l);
          own = (case map_of translationsTable language of
                   Some t \<Rightarrow> Inr (tableGet rt t key)
                 | None \<Rightarrow>
                     (case inheritedProp rt language of
                        Some v \<Rightarrow> nativeRead rt language key
                      | None \<Rightarrow> Inr None))
      in case own of
           Inl err \<Rightarrow> Inl err
         | Inr v \<Rightarrow>
             Inr (case js_or (js_or v (tableGet rt translations_en key)) (Some (Text key)) of
                    None \<Rightarrow> Text key
                  | Some result \<Rightarrow> result))"

subsection \<open>formatCrisisResources\<close>

text \<open>The text of a value inside a template literal.\<close>

fun textOf :: "jsvalue \<Rightarrow> jsstring" where
  "textOf (Text s) = s"
| "textOf (Other v) = v"

definition formatCrisisResources ::
  "runtime \<Rightarrow> jsstring list option \<Rightarrow> jsstring option \<Rightarrow> error + jsstring" where
  \<open>formatCrisisResources rt resources language =
     (case resources of
        None \<Rightarrow> Inr []
      | Some rs \<Rightarrow>
          if length rs = 0 then Inr []
          else
            (case translate rt (js ''crisisMessage'') language of
               Inl err \<Rightarrow> Inl err
             | Inr title \<Rightarrow>
                 let html = js ''<p><strong>'' @ textOf title
                              @ js ''</strong></p><div class="resources">'';
                     html = foldl (\<lambda>html resource.
                               html @ js ''<div class="resource-item">''
                                 @ formatMessage resource True @ js ''</div>'') html rs
                 in Inr (html @ js ''</div>'')))\<close>


section \<open>JSON values\<close>

text \<open>
  The scalar values of a JSON document. Numbers are the integers; \<open>None\<close> stands for
  \<^verbatim>\<open>undefined\<close>, the value of a property that is missing.
\<close>

datatype jsval = JNull | JBool bool | JNum int | JStr jsstring

fun truthy :: "jsval option \<Rightarrow> bool" where
  "truthy None = False"
| "truthy (Some JNull) = False"
| "truthy (Some (JBool b)) = b"
| "truthy (Some (JNum n)) = (n \<noteq> 0)"
| "truthy (Some (JStr s)) = (s \<noteq> [])"

text \<open>\<^verbatim>\<open>v || 0\<close>\<close>

definition orZero :: "jsval option \<Rightarrow> jsval" where
  "orZero v = (if truthy v then the v else JNum 0)"

definition digitChar :: "nat \<Rightarrow> nat" where
  "digitChar d = 0x30 + d"

function natToString :: "nat \<Rightarrow> jsstring" where
  "natToString n = (if n < 10 then [digitChar n] else natToString (n div 10) @ [digitChar (n mod 10)])"
  by pat_completeness auto
termination
  by (relation "measure id") auto

text \<open>The string a value becomes when it is assigned to \<^verbatim>\<open>textContent\<close>.\<close>

fun toText :: "jsval \<Rightarrow> jsstring" where
  "toText JNull = []"
| "toText (JBool b) = (if b then js ''true'' else js ''false'')"
| "toText (JNum n) = (if n < 0 then js ''-'' @ natToString (nat (- n)) else natToString (nat n))"
| "toText (JStr s) = s"

section \<open>APIService\<close>

text \<open>
  The backend is outside the program. A request is what \<^verbatim>\<open>fetch\<close> is called with; the body is
  the object handed to \<^verbatim>\<open>JSON.stringify\<close>. The answer to a request is either a rejection of the
  promise (with the message of its error) or a response with its \<^verbatim>\<open>ok\<close> flag, its status and the
  result of \<^verbatim>\<open>response.json()\<close>: the parsed body, or the message of the error when the body does
  not parse. The server may answer the same request differently over time: it sees how many
  requests came before.
\<close>

record request =
  req_url   :: jsstring
  req_method   :: jsstring
  req_headers :: "(jsstring \<times> jsstring) list"
  req_body :: "(jsstring \<times> jsstring) list option"

datatype 'j outcome = Rejected jsstring | Responded bool nat "jsstring + 'j"

type_synonym 'j server = "nat \<Rightarrow> request \<Rightarrow> 'j outcome"

definition fetch :: "'j server \<Rightarrow> request \<Rightarrow> request list \<Rightarrow> 'j outcome \<times> request list" where
  "fetch server rq log = (server (length log) rq, log @ [rq])"

definition baseURL   :: jsstring where
  "baseURL = js ''http://localhost:8000''"

definition endpoint_chat   :: jsstring where
  "endpoint_chat = js ''/api/v1/chat''"

definition endpoint_stats   :: jsstring where
  "endpoint_stats = js ''/api/v1/stats''"

definition endpoint_resources   :: jsstring where
  "endpoint_resources = js ''/api/v1/resources''"

definition endpoint_health   :: jsstring where
  "endpoint_health = js ''/api/v1/health''"

text \<open>\<^verbatim>\<open>fetch(url)\<close> without options is a GET without headers of the program and without body.\<close>

definition getRequest :: "jsstring \<Rightarrow> request" where
  "getRequest u = \<lparr>req_url = u, req_method = js ''GET'', req_headers = [], req_body = None\<rparr>"

definition postRequest :: "jsstring \<Rightarrow> (jsstring \<times> jsstring) list \<Rightarrow> request" where
  "postRequest u obj =
     \<lparr>req_url = u, req_method = js ''POST'',
      req_headers = [(js ''Content-Type'', js ''application/json'')], req_body = Some obj\<rparr>"

text \<open>
  The statements of every \<^verbatim>\<open>try\<close> block after the \<^verbatim>\<open>fetch\<close>, the same in the five methods: the
  rejection is thrown on, a response that is not ok throws the HTTP error, and the parsed body is
  returned unless parsing throws.
\<close>

definition tryBody :: "'j outcome \<Rightarrow> error + 'j" where
  "tryBody out =
     (case out of
        Rejected m \<Rightarrow> Inl (Error m)
      | Responded ok status body \<Rightarrow>
          if \<not> ok then Inl (Error (js ''HTTP error! status: '' @ natToString status))
          else (case body of Inl m \<Rightarrow> Inl (Error m) | Inr j \<Rightarrow> Inr j))"

definition api_sendMessage ::
  "'j server \<Rightarrow> jsstring \<Rightarrow> jsstring \<Rightarrow> jsstring option \<Rightarrow> jsstring option \<Rightarrow> request list
     \<Rightarrow> (error + 'j) \<times> request list" where
  "api_sendMessage server message userId language platform log =
     (let language = (case language of None \<Rightarrow> js ''en'' | Some l \<Rightarrow> l);
          platform = (case platform of None \<Rightarrow> js ''web'' | Some p \<Rightarrow> p);
          (out, log) = fetch server
             (postRequest (baseURL @ endpoint_chat)
                [(js ''user_id'', userId), (js ''message'', message),
                 (js ''language'', language), (js ''platform'', platform)]) log
      in (case tryBody out of
            Inr j \<Rightarrow> Inr j
          | Inl error \<Rightarrow> Inl (Error (js ''Failed to send message. Please try again.'')),
          log))"

record stats =
  active_users :: "jsval option"
  total_conversations :: "jsval option"
  resources_available :: "jsval option"

definition api_getStats :: "stats server \<Rightarrow> request list \<Rightarrow> stats \<times> request list" where
  "api_getStats server log =
     (let (out, log) = fetch server (getRequest (baseURL @ endpoint_stats)) log
      in (case tryBody out of
            Inr j \<Rightarrow> j
          | Inl error \<Rightarrow>
              \<lparr>active_users = Some (JNum 0), total_conversations = Some (JNum 0),
               resources_available = Some (JNum 0)\<rparr>,
          log))"

definition api_getResources :: "'j server \<Rightarrow> request list \<Rightarrow> (error + 'j) \<times> request list" where
  "api_getResources server log =
     (let (out, log) = fetch server (getRequest (baseURL @ endpoint_resources)) log
      in (case tryBody out of
            Inr j \<Rightarrow> Inr j
          | Inl error \<Rightarrow> Inl (Error (js ''Failed to load resources'')),
          log))"

text \<open>A health report is an object of scalar properties.\<close>

definition api_checkHealth ::
  "(jsstring \<times> jsval) list server \<Rightarrow> request list \<Rightarrow> (jsstring \<times> jsval) list \<times> request list" where
  "api_checkHealth server log =
     (let (out, log) = fetch server (getRequest (baseURL @ endpoint_health)) log
      in (case tryBody out of
            Inr j \<Rightarrow> j
          | Inl (Error message) \<Rightarrow> [(js ''status'', JStr (js ''unhealthy'')), (js ''error'', JStr message)],
          log))"

definition api_sendFeedback ::
  "'j server \<Rightarrow> jsstring \<Rightarrow> jsstring \<Rightarrow> jsstring \<Rightarrow> request list \<Rightarrow> (error + 'j) \<times> request list" where
  "api_sendFeedback server userId messageId feedback log =
     (let (out, log) = fetch server
             (postRequest (baseURL @ endpoint_chat @ js ''/feedback'')
                [(js ''user_id'', userId), (js ''message_id'', messageId), (js ''feedback'', feedback)]) log
      in (case tryBody out of
            Inr j \<Rightarrow> Inr j
          | Inl error \<Rightarrow> Inl (Error (js ''Failed to send feedback'')),
          log))"


section \<open>ChatInterface\<close>

text \<open>
  The state of the component: its fields, and the parts of the page it reads and writes (the
  children appended to the messages node, the input, the typing indicator, the send button, the
  crisis alert with its resources, the three statistics). The current language is one of the
  two that the component assigns: the constructor sets \<^verbatim>\<open>en\<close>, and \<^verbatim>\<open>switchLanguage\<close> is called
  with the \<^verbatim>\<open>data-lang\<close> of one of the two language buttons, \<^verbatim>\<open>en\<close> or \<^verbatim>\<open>sw\<close>. \<open>timers\<close> are the callbacks handed to
  \<^verbatim>\<open>setTimeout\<close> that have not run yet, \<open>requests\<close> the requests sent so far, \<open>tick\<close> the number of
  messages added, \<open>uncaught\<close> the error with which a call of \<open>sendMessage\<close> ended, if one did.
  Message identifiers, the time and the layout height of the input come from the environment,
  as do the two backends and the runtime. A method runs from its call to the end of its
  \<^verbatim>\<open>async\<close> body without another event in between, and so does the \<open>updateStats\<close> that
  \<open>sendMessage\<close> starts at its end. The reply of the chat backend has the shape the component
  reads: a text, the crisis flag, a confidence, and resources that are a list of texts when
  present. What is written to the console is left out.
\<close>

datatype language = En | Sw

fun langCode :: "language \<Rightarrow> jsstring" where
  "langCode En = js ''en''"
| "langCode Sw = js ''sw''"

record dom_message =
  el_classes :: "jsstring list"
  el_messageId :: jsstring
  el_innerHTML :: jsstring

record reply_meta =
  meta_isCrisis :: bool
  meta_confidence :: "jsval option"
  meta_resources :: "jsstring list option"

record history_entry =
  h_id :: jsstring
  h_type :: jsstring
  h_content :: jsstring
  h_timestamp :: nat
  h_metadata :: "reply_meta option"

record chat_response =
  response :: jsstring
  is_crisis :: bool
  confidence :: "jsval option"
  resources :: "jsstring list option"

datatype timer_action = ScrollMessages | HideCrisisAlert

record chat_state =
  currentLanguage :: language
  userId :: jsstring
  isTyping :: bool
  messageHistory :: "history_entry list"
  messagesNode :: "dom_message list"
  inputValue :: jsstring
  inputHeight :: nat
  typingShown :: bool
  sendDisabled :: bool
  crisisShown :: bool
  crisisResourcesHTML :: jsstring
  activeUsersText :: jsstring
  totalConversationsText :: jsstring
  resourcesAvailableText :: jsstring
  timers :: "(nat \<times> timer_action) list"
  requests :: "request list"
  tick :: nat
  uncaught :: "error option"

record env =
  env_chat :: "chat_response server"
  env_stats :: "stats server"
  env_runtime :: runtime
  env_messageId :: "nat \<Rightarrow> jsstring"
  env_now :: "nat \<Rightarrow> nat"
  env_scrollHeight :: "jsstring \<Rightarrow> nat"

definition scrollToBottom :: "chat_state \<Rightarrow> chat_state" where
  "scrollToBottom st = st\<lparr>timers := timers st @ [(100, ScrollMessages)]\<rparr>"

text \<open>The template of a message element around the formatted content.\<close>

definition bubble :: "jsstring \<Rightarrow> jsstring" where
  \<open>bubble html =
     [newline] @ replicate 12 0x20 @ js ''<div class="message-bubble">'' @ [newline]
       @ replicate 16 0x20 @ html @ [newline]
       @ replicate 12 0x20 @ js ''</div>'' @ [newline] @ replicate 8 0x20\<close>

definition addMessage ::
  "env \<Rightarrow> jsstring \<Rightarrow> jsstring \<Rightarrow> reply_meta option \<Rightarrow> chat_state \<Rightarrow> chat_state" where
  "addMessage e content type metadata st =
     (let messageId = env_messageId e (tick st);
          timestamp = env_now e (tick st);
          messageEl = \<lparr>el_classes = [js ''message'', type], el_messageId = messageId,
                       el_innerHTML = bubble (formatMessage content True)\<rparr>;
          st = st\<lparr>messagesNode := messagesNode st @ [messageEl]\<rparr>;
          st = scrollToBottom st;
          st = st\<lparr>messageHistory := messageHistory st @
                 [\<lparr>h_id = messageId, h_type = type, h_content = content,
                   h_timestamp = timestamp, h_metadata = metadata\<rparr>]\<rparr>;
          st = st\<lparr>messagesNode := butlast (messagesNode st) @
                 [messageEl\<lparr>el_classes := el_classes messageEl @ [js ''fade-in'']\<rparr>]\<rparr>
      in st\<lparr>tick := Suc (tick st)\<rparr>)"

definition showTyping :: "bool \<Rightarrow> chat_state \<Rightarrow> chat_state" where
  "showTyping show st =
     (let st = st\<lparr>isTyping := show\<rparr>;
          st = st\<lparr>typingShown := show\<rparr>;
          st = st\<lparr>sendDisabled := show\<rparr>
      in if show then scrollToBottom st else st)"

text \<open>\<open>formatCrisisResources\<close> runs first: when it throws, nothing of the alert has changed.\<close>

definition showCrisisAlert :: "runtime \<Rightarrow> jsstring list \<Rightarrow> chat_state \<Rightarrow> error + chat_state" where
  "showCrisisAlert rt rs st =
     (case formatCrisisResources rt (Some rs) (Some (langCode (currentLanguage st))) of
        Inl err \<Rightarrow> Inl err
      | Inr resourcesHtml \<Rightarrow>
          let st = st\<lparr>crisisResourcesHTML := resourcesHtml\<rparr>;
              st = st\<lparr>crisisShown := True\<rparr>
          in Inr (st\<lparr>timers := timers st @ [(15000, HideCrisisAlert)]\<rparr>))"

definition autoResizeTextarea :: "env \<Rightarrow> chat_state \<Rightarrow> chat_state" where
  "autoResizeTextarea e st = st\<lparr>inputHeight := min (env_scrollHeight e (inputValue st)) 120\<rparr>"

text \<open>
  \<open>api_getStats\<close> returns statistics on every outcome and the three nodes exist once the
  component is rendered, so the \<^verbatim>\<open>catch\<close> of \<open>updateStats\<close> is never entered.
\<close>

definition updateStats :: "env \<Rightarrow> chat_state \<Rightarrow> chat_state" where
  "updateStats e st =
     (let (stats, log) = api_getStats (env_stats e) (requests st);
          st = st\<lparr>requests := log\<rparr>;
          st = st\<lparr>activeUsersText := toText (orZero (active_users stats))\<rparr>;
          st = st\<lparr>totalConversationsText := toText (orZero (total_conversations stats))\<rparr>;
          st = st\<lparr>resourcesAvailableText := toText (orZero (resources_available stats))\<rparr>
      in st)"

text \<open>
  The \<^verbatim>\<open>catch\<close> block of \<open>sendMessage\<close>. An error thrown inside it leaves \<open>sendMessage\<close>:
  the one thrown by \<open>translate\<close>, or the one that \<open>formatMessage\<close> throws for a translation
  that is not a string, which has no \<^verbatim>\<open>replace\<close> method.
\<close>

definition catchBlock :: "env \<Rightarrow> chat_state \<Rightarrow> chat_state" where
  "catchBlock e st =
     (let st = showTyping False st
      in case translate (env_runtime e) (js ''errorMessage'') (Some (langCode (currentLanguage st))) of
           Inl err \<Rightarrow> st\<lparr>uncaught := Some err\<rparr>
         | Inr (Other v) \<Rightarrow> st\<lparr>uncaught := Some (Error (js ''formatted.replace is not a function''))\<rparr>
         | Inr (Text errorMsg) \<Rightarrow> addMessage e errorMsg (js ''bot'') None st)"

definition sendMessage :: "env \<Rightarrow> chat_state \<Rightarrow> chat_state" where
  "sendMessage e st =
     (let message = formatUserInput (inputValue st)
      in if message = [] \<or> isTyping st then st
         else
           let st = addMessage e message (js ''user'') None st;
               st = st\<lparr>inputValue := []\<rparr>;
               st = autoResizeTextarea e st;
               st = showTyping True st;
               (result, log) = api_sendMessage (env_chat e) message (userId st)
                                 (Some (langCode (currentLanguage st))) (Some (js ''web''))
                                 (requests st);
               st = st\<lparr>requests := log\<rparr>
           in case result of
                Inr resp \<Rightarrow>
                  let st = showTyping False st;
                      messageClass = (if is_crisis resp then js ''crisis'' else js ''bot'');
                      st = addMessage e (response resp) messageClass
                             (Some \<lparr>meta_isCrisis = is_crisis resp,
                                    meta_confidence = confidence resp,
                                    meta_resources = resources resp\<rparr>) st
                  in (case (if is_crisis resp \<and> resources resp \<noteq> None
                            then showCrisisAlert (env_runtime e) (the (resources resp)) st
                            else Inr st) of
                        Inl err \<Rightarrow> catchBlock e st
                      | Inr st \<Rightarrow> updateStats e st)
              | Inl error \<Rightarrow> catchBlock e st)"


section \<open>Notions used in the statements\<close>

text \<open>
  Two messages that differ only in the case of the letters A to Z: at each position the code
  units are equal, or one is a capital of A to Z and the other its small letter.
\<close>

definition asciiLetterPair :: "nat \<Rightarrow> nat \<Rightarrow> bool" where
  "asciiLetterPair a b = (0x41 \<le> a \<and> a \<le> 0x5A \<and> b = a + 0x20)"

definition differInAsciiCase :: "jsstring \<Rightarrow> jsstring \<Rightarrow> bool" where
  "differInAsciiCase m m' =
     list_all2 (\<lambda>a b. a = b \<or> asciiLetterPair a b \<or> asciiLetterPair b a) m m'"

text \<open>
  A message that begins with the small long s U+017F, and the same message in capitals
  (\<^verbatim>\<open>toUpperCase\<close> maps U+017F to S). The small long s is its own lower case.
\<close>

definition longSMessage :: jsstring where
  "longSMessage = [0x17F] @ js ''uicide''"

definition capitalMessage :: jsstring where
  "capitalMessage = js ''SUICIDE''"

text \<open>
  The second step of \<open>formatUserInput\<close> on its own: every run of white space becomes one
  space, U+0020.
\<close>

abbreviation collapse :: "jsstring \<Rightarrow> jsstring" where
  "collapse \<equiv> replaceAll whitespaceRegex (\<lambda>_. [0x20])"

definition startsWithWS :: "jsstring \<Rightarrow> bool" where
  "startsWithWS s = (s \<noteq> [] \<and> isWhiteSpace (hd s))"

definition endsWithWS :: "jsstring \<Rightarrow> bool" where
  "endsWithWS s = (s \<noteq> [] \<and> isWhiteSpace (last s))"

fun hasDoubleWS :: "jsstring \<Rightarrow> bool" where
  "hasDoubleWS (a # b # r) = ((isWhiteSpace a \<and> isWhiteSpace b) \<or> hasDoubleWS (b # r))"
| "hasDoubleWS _ = False"

text \<open>An input of 1001 code units whose code unit 1000 is a space.\<close>

definition longInput :: jsstring where
  "longInput = replicate 999 0x61 @ js '' b''"


text \<open>
  The three substitutions of \<open>formatMessage\<close> in words: every line feed becomes
  \<^verbatim>\<open><br>\<close>; from left to right, where \<^verbatim>\<open>http://\<close> or \<^verbatim>\<open>https://\<close> begins and a character other
  than white space follows, the text up to the next white space becomes a link that opens in a
  new tab; from left to right, \<^verbatim>\<open>+254\<close> with nine digits, or else ten digits, become a
  \<^verbatim>\<open>tel:\<close> link.
\<close>

definition nl2br :: "jsstring \<Rightarrow> jsstring" where
  "nl2br s = concat (map (\<lambda>c. if c = 0x0A then js ''<br>'' else [c]) s)"

definition nonWS :: "nat \<Rightarrow> bool" where
  "nonWS c = (\<not> isWhiteSpace c)"

definition newTabLink :: "jsstring \<Rightarrow> jsstring" where
  \<open>newTabLink u =
     js ''<a href="'' @ u @ js ''" target="_blank" rel="noopener noreferrer">'' @ u @ js ''</a>''\<close>

definition telLink :: "jsstring \<Rightarrow> jsstring" where
  \<open>telLink p = js ''<a href="tel:'' @ p @ js ''">'' @ p @ js ''</a>''\<close>

definition startsUrl :: "jsstring \<Rightarrow> bool" where
  "startsUrl s =
     ((prefix (js ''http://'') s \<and> drop 7 s \<noteq> [] \<and> nonWS (hd (drop 7 s)))
      \<or> (prefix (js ''https://'') s \<and> drop 8 s \<noteq> [] \<and> nonWS (hd (drop 8 s))))"

function linkUrls :: "jsstring \<Rightarrow> jsstring" where
  "linkUrls [] = []"
| "linkUrls (c # cs) =
     (if startsUrl (c # cs)
      then newTabLink (c # takeWhile nonWS cs) @ linkUrls (dropWhile nonWS cs)
      else c # linkUrls cs)"
  by pat_completeness auto
termination
  by (relation "measure length") (auto simp: length_dropWhile_le less_Suc_eq_le)

definition startsIntlPhone :: "jsstring \<Rightarrow> bool" where
  "startsIntlPhone s =
     (prefix (js ''+254'') s \<and> 13 \<le> length s \<and> list_all isDigit (take 9 (drop 4 s)))"

definition startsLocalPhone :: "jsstring \<Rightarrow> bool" where
  "startsLocalPhone s = (10 \<le> length s \<and> list_all isDigit (take 10 s))"

function linkPhones :: "jsstring \<Rightarrow> jsstring" where
  "linkPhones [] = []"
| "linkPhones (c # cs) =
     (if startsIntlPhone (c # cs) then telLink (c # take 12 cs) @ linkPhones (drop 12 cs)
      else if startsLocalPhone (c # cs) then telLink (c # take 9 cs) @ linkPhones (drop 9 cs)
      else c # linkPhones cs)"
  by pat_completeness auto
termination
  by (relation "measure length") auto


text \<open>
  A runtime for the examples: \<^verbatim>\<open>Object.prototype\<close> has the property \<^verbatim>\<open>constructor\<close>, the
  function \<^verbatim>\<open>Object\<close>; reading its \<^verbatim>\<open>caller\<close> throws, its \<^verbatim>\<open>name\<close> is \<^verbatim>\<open>Object\<close>, and the
  examples read no other property of it.
\<close>

definition demoRuntime :: runtime where
  "demoRuntime =
     \<lparr>inheritedProp =
        (\<lambda>name. if name = js ''constructor''
                then Some (js ''function Object() { [native code] }'') else None),
      nativeRead =
        (\<lambda>name key.
           if key = js ''caller'' then Inl (Error (js ''TypeError''))
           else if key = js ''name'' then Inr (Some (Text (js ''Object'')))
           else Inr None)\<rparr>"

text \<open>A failure outcome of a request: the fetch is rejected, or the response is not ok.\<close>

fun failed :: "'j outcome \<Rightarrow> bool" where
  "failed (Rejected m) = True"
| "failed (Responded ok status body) = (\<not> ok)"

definition chatRequest :: "jsstring \<Rightarrow> jsstring \<Rightarrow> jsstring \<Rightarrow> jsstring \<Rightarrow> request" where
  "chatRequest message uid language platform =
     \<lparr>req_url = baseURL @ js ''/api/v1/chat'', req_method = js ''POST'',
      req_headers = [(js ''Content-Type'', js ''application/json'')],
      req_body = Some [(js ''user_id'', uid), (js ''message'', message),
                       (js ''language'', language), (js ''platform'', platform)]\<rparr>"

definition defaultStats :: stats where
  "defaultStats =
     \<lparr>active_users = Some (JNum 0), total_conversations = Some (JNum 0),
      resources_available = Some (JNum 0)\<rparr>"


subsection \<open>Notions used in the statements about the component\<close>

text \<open>What the chat backend call of \<open>sendMessage\<close> returns in a state.\<close>

definition chatOutcome :: "env \<Rightarrow> chat_state \<Rightarrow> error + chat_response" where
  "chatOutcome e st =
     fst (api_sendMessage (env_chat e) (formatUserInput (inputValue st)) (userId st)
            (Some (langCode (currentLanguage st))) (Some (js ''web'')) (requests st))"

text \<open>
  The state of \<open>sendMessage\<close> when the request goes out: the user's message is added, the input
  is cleared and resized, the typing indicator is on.
\<close>

definition afterUser :: "env \<Rightarrow> chat_state \<Rightarrow> chat_state" where
  "afterUser e st =
     showTyping True (autoResizeTextarea e
        ((addMessage e (formatUserInput (inputValue st)) (js ''user'') None st)\<lparr>inputValue := []\<rparr>))"

text \<open>
  The element and the history entry expected for a message added at tick \<open>n\<close>. The element
  has the classes \<^verbatim>\<open>message\<close>, the type and \<^verbatim>\<open>fade-in\<close>; its markup is a \<^verbatim>\<open>message-bubble\<close>
  division around the content with its line feeds, links and phone numbers substituted, on
  lines indented by twelve, sixteen, twelve and eight spaces.
\<close>

definition messageElement :: "env \<Rightarrow> nat \<Rightarrow> jsstring \<Rightarrow> jsstring \<Rightarrow> dom_message" where
  \<open>messageElement e n content type =
     \<lparr>el_classes = [js ''message'', type, js ''fade-in''], el_messageId = env_messageId e n,
      el_innerHTML =
        [0x0A] @ js ''            <div class="message-bubble">''
        @ [0x0A] @ js ''                '' @ linkPhones (linkUrls (nl2br content))
        @ [0x0A] @ js ''            </div>''
        @ [0x0A] @ js ''        ''\<rparr>\<close>

definition historyEntry ::
  "env \<Rightarrow> nat \<Rightarrow> jsstring \<Rightarrow> jsstring \<Rightarrow> reply_meta option \<Rightarrow> history_entry" where
  "historyEntry e n content type metadata =
     \<lparr>h_id = env_messageId e n, h_type = type, h_content = content,
      h_timestamp = env_now e n, h_metadata = metadata\<rparr>"

text \<open>The two texts of the tables that the component shows, by language.\<close>

fun errorMessageText :: "language \<Rightarrow> jsstring" where
  "errorMessageText En = js ''Sorry, there was a technical issue. Please try again.''"
| "errorMessageText Sw = js ''Pole sana, kuna tatizo la kiufundi. Tafadhali jaribu tena.''"

fun crisisMessageText :: "language \<Rightarrow> jsstring" where
  "crisisMessageText En = js ''I see you might need immediate help. Please contact:''"
| "crisisMessageText Sw = js ''Naona unaweza kuhitaji msaada wa haraka. Tafadhali wasiliana na:''"

text \<open>
  The markup expected in the crisis alert for a list of resources: nothing for the empty list;
  otherwise the title in bold, then one \<^verbatim>\<open>resource-item\<close> division for each resource, in
  order, inside a \<^verbatim>\<open>resources\<close> division.
\<close>

definition resourcesMarkup :: "language \<Rightarrow> jsstring list \<Rightarrow> jsstring" where
  \<open>resourcesMarkup l rs =
     (if rs = [] then []
      else js ''<p><strong>'' @ crisisMessageText l @ js ''</strong></p><div class="resources">''
           @ concat (map (\<lambda>r. js ''<div class="resource-item">''
                                @ linkPhones (linkUrls (nl2br r)) @ js ''</div>'') rs)
           @ js ''</div>'')\<close>

text \<open>The state with the alert shown for the resources \<open>rs\<close>.\<close>

definition alertShown :: "jsstring list \<Rightarrow> chat_state \<Rightarrow> chat_state" where
  "alertShown rs st =
     st\<lparr>crisisResourcesHTML := resourcesMarkup (currentLanguage st) rs,
        crisisShown := True,
        timers := timers st @ [(15000, HideCrisisAlert)]\<rparr>"

text \<open>An environment whose backends always give the same two answers, and a fresh component.\<close>

definition demoEnv :: "chat_response outcome \<Rightarrow> stats outcome \<Rightarrow> env" where
  "demoEnv c s =
     \<lparr>env_chat = (\<lambda>n rq. c), env_stats = (\<lambda>n rq. s), env_runtime = demoRuntime,
      env_messageId = (\<lambda>n. js ''msg_'' @ natToString n), env_now = (\<lambda>n. n),
      env_scrollHeight = (\<lambda>v. 24)\<rparr>"

definition freshState :: "language \<Rightarrow> jsstring \<Rightarrow> chat_state" where
  "freshState l typed =
     \<lparr>currentLanguage = l, userId = js ''user_1'', isTyping = False, messageHistory = [],
      messagesNode = [], inputValue = typed, inputHeight = 24, typingShown = False,
      sendDisabled = False, crisisShown = False, crisisResourcesHTML = [],
      activeUsersText = js ''0'', totalConversationsText = js ''0'',
      resourcesAvailableText = js ''0'',
      timers = [], requests = [], tick = 0, uncaught = None\<rparr>"

definition calmReply :: chat_response where
  "calmReply =
     \<lparr>response = js ''Pole sana.'', is_crisis = False, confidence = None, resources = None\<rparr>"



section \<open>Properties\<close>

subsection \<open>detectCrisisIndicators\<close>

lemma includes_sublist: "includes_str s k \<longleftrightarrow> sublist k s"
  by (induction s) (auto simp: sublist_Cons_right)

lemma toLowerUnit_pair: "asciiLetterPair a b \<Longrightarrow> toLowerUnit a = toLowerUnit b"
  by (auto simp: asciiLetterPair_def toLowerUnit_def)

lemma toLowerCase_ascii_case: "differInAsciiCase m m' \<Longrightarrow> toLowerCase m = toLowerCase m'"
proof -
  assume "differInAsciiCase m m'"
  then have "list_all2 (\<lambda>a b. toLowerUnit a = toLowerUnit b) m m'"
    unfolding differInAsciiCase_def
    by (rule list_all2_mono) (auto dest: toLowerUnit_pair)
  then have "map toLowerUnit m = map toLowerUnit m'"
    by (induction rule: list_all2_induct) auto
  then show ?thesis by (simp add: toLowerCase_def)
qed

text \<open>
  C1, as the code has it. \<open>detectCrisisIndicators\<close> is true exactly when one of the fifteen
  keywords (eight English, seven Swahili, \<open>emergency\<close> twice) occurs in the lower-cased
  message, whatever the runtime's lower-casing is; so two messages with the same lower-case
  form get the same answer. In particular the answer does not change when the case of letters
  A to Z changes.
\<close>

theorem detectCrisisIndicators_keyword_scan:
  "(detectCrisisIndicators toLower message \<longleftrightarrow>
      (\<exists>k \<in> set crisisKeywords. sublist k (toLower message)))
   \<and> length crisisKeywords = 15
   \<and> take 8 crisisKeywords =
        [js ''suicide'', js ''kill myself'', js ''end it all'',
         js ''don'' @ [0x27] @ js ''t want to live'',
         js ''cutting'', js ''self harm'', js ''overdose'', js ''emergency'']
   \<and> drop 8 crisisKeywords =
        [js ''kujiua'', js ''kufa'', js ''maumivu'', js ''tatizo kubwa'',
         js ''msaada wa haraka'', js ''emergency'', js ''hospitali'']
   \<and> count_list crisisKeywords (js ''emergency'') = 2
   \<and> (toLower message' = toLower message \<longrightarrow>
        detectCrisisIndicators toLower message' = detectCrisisIndicators toLower message)
   \<and> (differInAsciiCase message message' \<longrightarrow>
        detectCrisisIndicators toLowerCase message' = detectCrisisIndicators toLowerCase message)"
proof -
  have "detectCrisisIndicators toLower message \<longleftrightarrow>
      (\<exists>k \<in> set crisisKeywords. sublist k (toLower message))"
    by (simp add: detectCrisisIndicators_def list_ex_iff includes_sublist)
  moreover have "length crisisKeywords = 15"
    by (simp add: crisisKeywords_def)
  moreover have "count_list crisisKeywords (js ''emergency'') = 2"
    by (simp add: crisisKeywords_def)
  moreover have "toLower message' = toLower message \<longrightarrow>
        detectCrisisIndicators toLower message' = detectCrisisIndicators toLower message"
    by (simp add: detectCrisisIndicators_def)
  moreover have "differInAsciiCase message message' \<longrightarrow>
        detectCrisisIndicators toLowerCase message' = detectCrisisIndicators toLowerCase message"
    using toLowerCase_ascii_case by (auto simp: detectCrisisIndicators_def)
  moreover have "take 8 crisisKeywords =
        [js ''suicide'', js ''kill myself'', js ''end it all'',
         js ''don'' @ [0x27] @ js ''t want to live'',
         js ''cutting'', js ''self harm'', js ''overdose'', js ''emergency'']"
    by (simp add: crisisKeywords_def)
  moreover have "drop 8 crisisKeywords =
        [js ''kujiua'', js ''kufa'', js ''maumivu'', js ''tatizo kubwa'',
         js ''msaada wa haraka'', js ''emergency'', js ''hospitali'']"
    by (simp add: crisisKeywords_def)
  ultimately show ?thesis
    by blast
qed

lemma toLowerCase_kill: "toLowerCase (js ''I want to KILL MYSELF'') = js ''i want to kill myself''"
  by (simp add: toLowerCase_def toLowerUnit_def)

lemma toLowerCase_kill2: "toLowerCase (js ''i WANT to kill myself'') = js ''i want to kill myself''"
  by (simp add: toLowerCase_def toLowerUnit_def)

lemma detect_lower_kill:
  "list_ex (\<lambda>keyword. includes_str (js ''i want to kill myself'') keyword) crisisKeywords"
  by (simp add: crisisKeywords_def)

theorem detectCrisisIndicators_keyword_scan_witness:
  "detectCrisisIndicators toLowerCase (js ''I want to KILL MYSELF'')
   \<and> toLowerCase (js ''i WANT to kill myself'') = toLowerCase (js ''I want to KILL MYSELF'')
   \<and> differInAsciiCase (js ''I want to KILL MYSELF'') (js ''i WANT to kill myself'')
   \<and> detectCrisisIndicators toLowerCase (js ''i WANT to kill myself'')
   \<and> detectCrisisIndicators toLowerCase ([0x212A] @ js ''ujiua'')
   \<and> \<not> detectCrisisIndicators toLowerCase (js ''Habari yako'')"
proof -
  have l: "toLowerCase (js ''i WANT to kill myself'') = toLowerCase (js ''I want to KILL MYSELF'')"
    by (simp only: toLowerCase_kill toLowerCase_kill2)
  have d: "detectCrisisIndicators toLowerCase (js ''I want to KILL MYSELF'')"
    unfolding detectCrisisIndicators_def Let_def toLowerCase_kill by (rule detect_lower_kill)
  have a: "differInAsciiCase (js ''I want to KILL MYSELF'') (js ''i WANT to kill myself'')"
    by (simp add: differInAsciiCase_def asciiLetterPair_def)
  have k: "detectCrisisIndicators toLowerCase ([0x212A] @ js ''ujiua'')"
    by (simp add: detectCrisisIndicators_def crisisKeywords_def toLowerCase_def toLowerUnit_def)
  have n: "\<not> detectCrisisIndicators toLowerCase (js ''Habari yako'')"
    by (simp add: detectCrisisIndicators_def crisisKeywords_def toLowerCase_def toLowerUnit_def)
  from detectCrisisIndicators_keyword_scan
         [of toLowerCase "js ''I want to KILL MYSELF''" "js ''i WANT to kill myself''"] l d a k n
  show ?thesis by blast
qed

text \<open>
  C1 as stated fails for a change of case outside A to Z: the message in capitals contains a
  keyword after lower-casing, the message with the small long s does not.
\<close>

theorem detectCrisisIndicators_case_change:
  "detectCrisisIndicators toLowerCase capitalMessage
   \<and> \<not> detectCrisisIndicators toLowerCase longSMessage
   \<and> hd longSMessage = 0x17F \<and> hd capitalMessage = 0x53
   \<and> differInAsciiCase (tl longSMessage) (tl capitalMessage)"
proof -
  have 1: "detectCrisisIndicators toLowerCase capitalMessage"
    by (simp add: detectCrisisIndicators_def crisisKeywords_def toLowerCase_def toLowerUnit_def
        capitalMessage_def)
  have 2: "\<not> detectCrisisIndicators toLowerCase longSMessage"
    by (simp add: detectCrisisIndicators_def crisisKeywords_def toLowerCase_def toLowerUnit_def
        longSMessage_def)
  have 3: "hd longSMessage = 0x17F \<and> hd capitalMessage = 0x53"
    by (simp add: longSMessage_def capitalMessage_def)
  have 4: "differInAsciiCase (tl longSMessage) (tl capitalMessage)"
    by (simp add: longSMessage_def capitalMessage_def differInAsciiCase_def asciiLetterPair_def)
  from 1 2 3 4 show ?thesis by blast
qed


subsection \<open>The matcher on the expressions of the source\<close>

declare replaceAll.simps [simp del]
declare ms.simps(7) [simp del]

lemma ms_Plus_Cls_Nil: "ms (Plus (Cls P)) [] = []"
  by (subst ms.simps(7)) simp

lemma ms_Plus_Cls_Cons:
  "ms (Plus (Cls P)) (x # xs) = (if P x then ms (Plus (Cls P)) xs @ [xs] else [])"
  by (subst ms.simps(7)) simp

lemma ms_Plus_Cls_hd:
  "s \<noteq> [] \<Longrightarrow> P (hd s) \<Longrightarrow> \<exists>ts. ms (Plus (Cls P)) s = dropWhile P s # ts"
proof (induction s)
  case Nil
  then show ?case by simp
next
  case (Cons x xs)
  show ?case
  proof (cases "xs \<noteq> [] \<and> P (hd xs)")
    case True
    with Cons obtain ts where "ms (Plus (Cls P)) xs = dropWhile P xs # ts" by blast
    with Cons.prems show ?thesis by (simp add: ms_Plus_Cls_Cons)
  next
    case False
    then have "ms (Plus (Cls P)) xs = [] \<and> dropWhile P xs = xs"
      by (cases xs) (auto simp: ms_Plus_Cls_Nil ms_Plus_Cls_Cons)
    with Cons.prems show ?thesis by (simp add: ms_Plus_Cls_Cons)
  qed
qed

lemma take_length_dropWhile: "take (length s - length (dropWhile P s)) s = takeWhile P s"
proof -
  have "length s - length (dropWhile P s) = length (takeWhile P s)"
    by (metis add_diff_cancel_right' length_append takeWhile_dropWhile_id)
  then show ?thesis
    by (metis append_eq_conv_conj takeWhile_dropWhile_id)
qed

lemma exec_Plus_Cls:
  "exec (Plus (Cls P)) s = (if s \<noteq> [] \<and> P (hd s) then Some (takeWhile P s) else None)"
proof (cases "s \<noteq> [] \<and> P (hd s)")
  case True
  then obtain ts where "ms (Plus (Cls P)) s = dropWhile P s # ts"
    using ms_Plus_Cls_hd by blast
  with True show ?thesis by (simp add: exec_def take_length_dropWhile)
next
  case False
  then have "ms (Plus (Cls P)) s = []"
    by (cases s) (auto simp: ms_Plus_Cls_Nil ms_Plus_Cls_Cons)
  with False show ?thesis by (simp add: exec_def)
qed

lemma ms_lit: "ms (lit w) s = (if prefix w s then [drop (length w) s] else [])"
  by (induction w arbitrary: s) (auto split: list.splits)

lemma ms_rep_Cls:
  "ms (rep n (Cls P)) s = (if n \<le> length s \<and> list_all P (take n s) then [drop n s] else [])"
  by (induction n arbitrary: s) (auto split: list.splits)

subsection \<open>formatUserInput\<close>

lemma collapse_Nil: "replaceAll whitespaceRegex f [] = []"
  by (subst replaceAll.simps) (simp add: whitespaceRegex_def exec_Plus_Cls)

lemma collapse_Cons:
  "replaceAll whitespaceRegex f (c # cs) =
     (if isWhiteSpace c
      then f (c # takeWhile isWhiteSpace cs) @ replaceAll whitespaceRegex f (dropWhile isWhiteSpace cs)
      else c # replaceAll whitespaceRegex f cs)"
proof (cases "isWhiteSpace c")
  case True
  have "drop (Suc (length (takeWhile isWhiteSpace cs))) (c # cs) = dropWhile isWhiteSpace cs"
    by (metis append_eq_conv_conj drop_Suc_Cons takeWhile_dropWhile_id)
  with True show ?thesis
    by (subst replaceAll.simps) (simp add: whitespaceRegex_def exec_Plus_Cls)
next
  case False
  then show ?thesis
    by (subst replaceAll.simps) (simp add: whitespaceRegex_def exec_Plus_Cls)
qed

lemma isWhiteSpace_space: "isWhiteSpace 0x20"
  by (simp add: isWhiteSpace_def)

lemma hasDoubleWS_Cons: "hasDoubleWS (a # t) = ((isWhiteSpace a \<and> startsWithWS t) \<or> hasDoubleWS t)"
  by (cases t) (auto simp: startsWithWS_def)

lemma collapse_start: "\<not> startsWithWS s \<Longrightarrow> \<not> startsWithWS (collapse s)"
  by (cases s) (auto simp: startsWithWS_def collapse_Nil collapse_Cons)

lemma dropWhile_not_start: "\<not> startsWithWS (dropWhile isWhiteSpace s)"
  by (metis hd_dropWhile startsWithWS_def)

lemma collapse_noDouble: "\<not> hasDoubleWS (collapse s)"
proof (induction s rule: length_induct)
  case (1 s)
  show ?case
  proof (cases s)
    case Nil
    then show ?thesis by (simp add: collapse_Nil)
  next
    case (Cons c cs)
    show ?thesis
    proof (cases "isWhiteSpace c")
      case True
      have "length (dropWhile isWhiteSpace cs) < length s"
        using Cons by (simp add: length_dropWhile_le less_Suc_eq_le)
      with 1 have "\<not> hasDoubleWS (collapse (dropWhile isWhiteSpace cs))" by blast
      moreover have "\<not> startsWithWS (collapse (dropWhile isWhiteSpace cs))"
        by (rule collapse_start) (rule dropWhile_not_start)
      ultimately show ?thesis
        using Cons True by (simp add: collapse_Cons hasDoubleWS_Cons)
    next
      case False
      from 1 Cons have "\<not> hasDoubleWS (collapse cs)" by simp
      with Cons False show ?thesis by (simp add: collapse_Cons hasDoubleWS_Cons)
    qed
  qed
qed

lemma startsWithWS_take: "startsWithWS (take n s) \<Longrightarrow> startsWithWS s"
  by (cases s; cases n) (auto simp: startsWithWS_def)

lemma hasDoubleWS_take: "hasDoubleWS (take n s) \<Longrightarrow> hasDoubleWS s"
proof (induction s arbitrary: n)
  case Nil
  then show ?case by simp
next
  case (Cons a s)
  then show ?case
    by (cases n) (auto simp: hasDoubleWS_Cons dest: startsWithWS_take)
qed

lemma trim_prefix: "dropWhile isWhiteSpace s = trim s @ rev (takeWhile isWhiteSpace (rev (dropWhile isWhiteSpace s)))"
proof -
  let ?x = "rev (dropWhile isWhiteSpace s)"
  have "rev (dropWhile isWhiteSpace ?x) @ rev (takeWhile isWhiteSpace ?x) =
        rev (takeWhile isWhiteSpace ?x @ dropWhile isWhiteSpace ?x)"
    by (simp only: rev_append)
  also have "\<dots> = rev ?x"
    by (simp only: takeWhile_dropWhile_id)
  finally show ?thesis
    by (simp add: trim_def)
qed

lemma trim_start: "\<not> startsWithWS (trim s)"
proof (cases "trim s = []")
  case True
  then show ?thesis by (simp add: startsWithWS_def)
next
  case False
  then have "hd (trim s) = hd (dropWhile isWhiteSpace s)"
    by (metis trim_prefix hd_append2)
  moreover have "dropWhile isWhiteSpace s \<noteq> []"
    using False trim_prefix by (metis append_is_Nil_conv)
  ultimately show ?thesis
    using hd_dropWhile [of isWhiteSpace s] by (simp add: startsWithWS_def)
qed

lemma trim_end: "\<not> endsWithWS (trim s)"
proof (cases "trim s = []")
  case True
  then show ?thesis by (simp add: endsWithWS_def)
next
  case False
  let ?r = "dropWhile isWhiteSpace (rev (dropWhile isWhiteSpace s))"
  from False have ne: "?r \<noteq> []" by (simp add: trim_def)
  then have "last (trim s) = hd ?r"
    by (simp add: trim_def last_rev)
  with ne show ?thesis
    using hd_dropWhile [of isWhiteSpace "rev (dropWhile isWhiteSpace s)"]
    by (simp add: endsWithWS_def)
qed

lemma collapse_nonempty: "s \<noteq> [] \<Longrightarrow> collapse s \<noteq> []"
  by (cases s) (auto simp: collapse_Cons)

lemma endsWithWS_Cons: "endsWithWS (a # t) = (if t = [] then isWhiteSpace a else endsWithWS t)"
  by (simp add: endsWithWS_def)

lemma dropWhile_keeps_end:
  assumes "\<not> endsWithWS cs" "cs \<noteq> []"
  shows "dropWhile isWhiteSpace cs \<noteq> [] \<and> \<not> endsWithWS (dropWhile isWhiteSpace cs)"
proof -
  from assms have nl: "\<not> isWhiteSpace (last cs)" by (simp add: endsWithWS_def)
  with assms(2) have ne: "dropWhile isWhiteSpace cs \<noteq> []"
    by (metis dropWhile_eq_Nil_conv last_in_set)
  have "cs = takeWhile isWhiteSpace cs @ dropWhile isWhiteSpace cs" by simp
  with ne have "last cs = last (dropWhile isWhiteSpace cs)"
    by (metis last_appendR)
  with nl ne show ?thesis by (simp add: endsWithWS_def)
qed

lemma collapse_end: "\<not> endsWithWS s \<Longrightarrow> \<not> endsWithWS (collapse s)"
proof (induction s rule: length_induct)
  case (1 s)
  show ?case
  proof (cases s)
    case Nil
    then show ?thesis by (simp add: collapse_Nil endsWithWS_def)
  next
    case (Cons c cs)
    show ?thesis
    proof (cases "isWhiteSpace c")
      case True
      let ?t = "dropWhile isWhiteSpace cs"
      from True Cons "1.prems" have cs: "cs \<noteq> []" "\<not> endsWithWS cs"
        by (auto simp: endsWithWS_Cons split: if_splits)
      then have t: "?t \<noteq> []" "\<not> endsWithWS ?t"
        using dropWhile_keeps_end by blast+
      have "length ?t < length s"
        using Cons by (simp add: length_dropWhile_le less_Suc_eq_le)
      with 1 t have "\<not> endsWithWS (collapse ?t)" by blast
      moreover have "collapse ?t \<noteq> []" using t collapse_nonempty by blast
      ultimately show ?thesis
        using Cons True by (simp add: collapse_Cons endsWithWS_Cons)
    next
      case False
      show ?thesis
      proof (cases "cs = []")
        case True
        with Cons False show ?thesis by (simp add: collapse_Cons collapse_Nil endsWithWS_Cons)
      next
        case ne: False
        with Cons "1.prems" have "\<not> endsWithWS cs" by (simp add: endsWithWS_Cons)
        with 1 Cons have "\<not> endsWithWS (collapse cs)" by simp
        moreover have "collapse cs \<noteq> []" using ne collapse_nonempty by blast
        ultimately show ?thesis
          using Cons False by (simp add: collapse_Cons endsWithWS_Cons)
      qed
    qed
  qed
qed

lemma collapse_only_spaces: "c \<in> set (collapse s) \<Longrightarrow> isWhiteSpace c \<Longrightarrow> c = 0x20"
proof (induction s rule: length_induct)
  case (1 s)
  show ?case
  proof (cases s)
    case Nil
    with "1.prems" show ?thesis by (simp add: collapse_Nil)
  next
    case (Cons a as)
    show ?thesis
    proof (cases "isWhiteSpace a")
      case True
      have "length (dropWhile isWhiteSpace as) < length s"
        using Cons by (simp add: length_dropWhile_le less_Suc_eq_le)
      with 1 Cons True show ?thesis
        by (auto simp: collapse_Cons)
    next
      case False
      with 1 Cons show ?thesis
        by (auto simp: collapse_Cons)
    qed
  qed
qed

lemma collapse_fix:
  "\<not> hasDoubleWS s \<Longrightarrow> (\<forall>c \<in> set s. isWhiteSpace c \<longrightarrow> c = 0x20) \<Longrightarrow> collapse s = s"
proof (induction s)
  case Nil
  then show ?case by (simp add: collapse_Nil)
next
  case (Cons a s)
  then have ih: "collapse s = s" by (simp add: hasDoubleWS_Cons)
  show ?case
  proof (cases "isWhiteSpace a")
    case True
    with Cons.prems have a: "a = 0x20" and ns: "\<not> startsWithWS s"
      by (auto simp: hasDoubleWS_Cons)
    from ns have "dropWhile isWhiteSpace s = s"
      by (cases s) (auto simp: startsWithWS_def)
    with True a ih show ?thesis by (simp add: collapse_Cons)
  next
    case False
    with ih show ?thesis by (simp add: collapse_Cons)
  qed
qed

lemma trim_fix: "\<not> startsWithWS s \<Longrightarrow> \<not> endsWithWS s \<Longrightarrow> trim s = s"
proof -
  assume a: "\<not> startsWithWS s" and b: "\<not> endsWithWS s"
  from a have d: "dropWhile isWhiteSpace s = s"
    by (cases s) (auto simp: startsWithWS_def)
  from b have "dropWhile isWhiteSpace (rev s) = rev s"
    by (cases "rev s") (auto simp: endsWithWS_def last_rev)
  with d show ?thesis by (simp add: trim_def)
qed

lemma trim_Nil: "trim [] = []"
  by (simp add: trim_def)

lemma formatUserInput_eq: "formatUserInput x = take 1000 (collapse (trim x))"
  by (simp add: formatUserInput_def substr0_def trim_Nil collapse_Nil)

lemma formatUserInput_fix:
  assumes "\<not> startsWithWS y" "\<not> endsWithWS y" "\<not> hasDoubleWS y"
    "\<forall>c \<in> set y. isWhiteSpace c \<longrightarrow> c = 0x20" "length y \<le> 1000"
  shows "formatUserInput y = y"
  using assms by (simp add: formatUserInput_eq trim_fix collapse_fix)


lemma collapse_length: "length (collapse s) \<le> length s"
proof (induction s rule: length_induct)
  case (1 s)
  show ?case
  proof (cases s)
    case Nil
    then show ?thesis by (simp add: collapse_Nil)
  next
    case (Cons c cs)
    show ?thesis
    proof (cases "isWhiteSpace c")
      case True
      have d: "length (dropWhile isWhiteSpace cs) \<le> length cs"
        by (rule length_dropWhile_le)
      then have "length (dropWhile isWhiteSpace cs) < length s"
        using Cons by simp
      with 1 have "length (collapse (dropWhile isWhiteSpace cs)) \<le> length (dropWhile isWhiteSpace cs)"
        by blast
      with d Cons True show ?thesis by (simp add: collapse_Cons)
    next
      case False
      from 1 Cons have "length (collapse cs) \<le> length cs" by simp
      with Cons False show ?thesis by (simp add: collapse_Cons)
    qed
  qed
qed

lemma trim_length: "length (trim s) \<le> length s"
proof -
  have "length (trim s) \<le> length (dropWhile isWhiteSpace s)"
    by (metis trim_prefix le_add1 length_append)
  also have "\<dots> \<le> length s"
    by (rule length_dropWhile_le)
  finally show ?thesis .
qed

lemma endsWithWS_take:
  assumes "\<not> endsWithWS y" "\<And>c. c \<in> set y \<Longrightarrow> isWhiteSpace c \<Longrightarrow> c = 0x20"
  shows "endsWithWS (take 1000 y) \<longleftrightarrow> 1000 < length y \<and> y ! 999 = 0x20"
proof (cases "1000 < length y")
  case True
  then have ne: "take 1000 y \<noteq> []" by auto
  from True have len: "length (take 1000 y) = 1000" by simp
  from ne have "last (take 1000 y) = take 1000 y ! (length (take 1000 y) - 1)"
    by (rule last_conv_nth)
  also have "\<dots> = take 1000 y ! 999"
    by (simp only: len) simp
  also have "\<dots> = y ! 999"
    by simp
  finally have l: "last (take 1000 y) = y ! 999" .
  from True have "y ! 999 \<in> set y" by simp
  with assms(2) have "isWhiteSpace (y ! 999) \<longleftrightarrow> y ! 999 = 0x20"
    using isWhiteSpace_space by metis
  with True ne l show ?thesis by (simp add: endsWithWS_def)
next
  case False
  then have "take 1000 y = y" by simp
  with False assms(1) show ?thesis by simp
qed

text \<open>
  C8, as the code has it. For every input the result of \<open>formatUserInput\<close> has at most 1000
  code units, does not start with white space and has no two white-space characters in a row.
  It ends with white space exactly when the trimmed and collapsed text is longer than 1000 and
  its code unit 1000 is a space, so that the cut falls right after it; and a second
  application leaves the result as it is exactly when the result does not end with white
  space.
\<close>

theorem formatUserInput_shape:
  "length (formatUserInput x) \<le> 1000
   \<and> \<not> startsWithWS (formatUserInput x)
   \<and> \<not> hasDoubleWS (formatUserInput x)
   \<and> (endsWithWS (formatUserInput x) \<longleftrightarrow>
        1000 < length (collapse (trim x)) \<and> collapse (trim x) ! 999 = 0x20)
   \<and> (formatUserInput (formatUserInput x) = formatUserInput x \<longleftrightarrow>
        \<not> endsWithWS (formatUserInput x))"
proof -
  let ?y = "collapse (trim x)"
  let ?z = "formatUserInput x"
  have z: "?z = take 1000 ?y" by (rule formatUserInput_eq)
  have 1: "length ?z \<le> 1000"
    by (simp add: formatUserInput_eq)
  have s: "\<not> startsWithWS ?y"
    by (rule collapse_start) (rule trim_start)
  then have 2: "\<not> startsWithWS ?z"
    unfolding z using startsWithWS_take by blast
  have 3: "\<not> hasDoubleWS ?z"
    unfolding z using hasDoubleWS_take collapse_noDouble by blast
  have e: "\<not> endsWithWS ?y" by (rule collapse_end) (rule trim_end)
  have 4: "endsWithWS ?z \<longleftrightarrow> 1000 < length ?y \<and> ?y ! 999 = 0x20"
    unfolding z using e collapse_only_spaces by (rule endsWithWS_take)
  have only: "\<forall>c \<in> set ?z. isWhiteSpace c \<longrightarrow> c = 0x20"
    unfolding z using collapse_only_spaces set_take_subset by fastforce
  have 5: "formatUserInput ?z = ?z" if "\<not> endsWithWS ?z"
    using 2 that 3 only 1 by (rule formatUserInput_fix)
  have 6: "formatUserInput ?z \<noteq> ?z" if w: "endsWithWS ?z"
  proof -
    let ?y' = "collapse (trim ?z)"
    have "length ?y' \<le> length (trim ?z)" by (rule collapse_length)
    also have "\<dots> \<le> length ?z" by (rule trim_length)
    also note 1
    finally have "formatUserInput ?z = ?y'"
      by (simp add: formatUserInput_eq [of ?z])
    moreover have "\<not> endsWithWS ?y'" by (rule collapse_end) (rule trim_end)
    ultimately show ?thesis using w by metis
  qed
  from 1 2 3 4 5 6 show ?thesis by blast
qed

lemma dropWhile_id: "\<not> startsWithWS s \<Longrightarrow> dropWhile isWhiteSpace s = s"
  by (cases s) (auto simp: startsWithWS_def)

lemma hasDoubleWS_replicate:
  "\<not> isWhiteSpace a \<Longrightarrow> hasDoubleWS (replicate n a @ t) = hasDoubleWS t"
  by (induction n) (auto simp: hasDoubleWS_Cons)

lemma a_not_ws: "\<not> isWhiteSpace 0x61" "\<not> isWhiteSpace 0x62"
  by (simp_all add: isWhiteSpace_def)

lemma formatUserInput_longInput:
  "formatUserInput longInput = replicate 999 0x61 @ [0x20]"
proof -
  have "\<not> startsWithWS longInput"
    by (simp add: longInput_def startsWithWS_def hd_append a_not_ws)
  moreover have "\<not> endsWithWS longInput"
    by (simp add: longInput_def endsWithWS_def a_not_ws)
  ultimately have t: "trim longInput = longInput"
    by (rule trim_fix)
  have "\<not> hasDoubleWS longInput"
    by (simp add: longInput_def hasDoubleWS_replicate a_not_ws)
  moreover have "\<forall>c \<in> set longInput. isWhiteSpace c \<longrightarrow> c = 0x20"
    by (auto simp: longInput_def a_not_ws)
  ultimately have c: "collapse longInput = longInput"
    by (rule collapse_fix)
  have "take 1000 longInput = replicate 999 0x61 @ [0x20]"
    by (simp add: longInput_def)
  with t c show ?thesis by (simp add: formatUserInput_eq)
qed

lemma formatUserInput_truncated:
  "formatUserInput (replicate 999 0x61 @ [0x20]) = replicate 999 0x61"
proof -
  let ?r = "replicate 999 (0x61 :: nat)"
  have ns: "\<not> startsWithWS ?r" "\<not> startsWithWS (?r @ [0x20])"
    by (simp_all add: startsWithWS_def hd_append a_not_ws)
  have d1: "dropWhile isWhiteSpace ?r = ?r"
    using ns(1) by (rule dropWhile_id)
  have d2: "dropWhile isWhiteSpace (?r @ [0x20]) = ?r @ [0x20]"
    using ns(2) by (rule dropWhile_id)
  have "rev (?r @ [0x20]) = 0x20 # ?r" by simp
  then have "dropWhile isWhiteSpace (rev (?r @ [0x20])) = ?r"
    using d1 by (simp add: isWhiteSpace_space)
  then have t: "trim (?r @ [0x20]) = ?r"
    using d2 by (simp add: trim_def)
  have "\<not> hasDoubleWS ?r"
    using hasDoubleWS_replicate [of "0x61" 999 "[]"] by (simp add: a_not_ws)
  moreover have "\<forall>c \<in> set ?r. isWhiteSpace c \<longrightarrow> c = 0x20"
    by (auto simp: a_not_ws)
  ultimately have "collapse ?r = ?r"
    by (rule collapse_fix)
  with t show ?thesis by (simp add: formatUserInput_eq)
qed

text \<open>
  C8 as stated fails where the cut at 1000 code units falls right after a space: the result
  ends with that space, and a second application removes it.
\<close>

theorem formatUserInput_not_idempotent:
  "formatUserInput (formatUserInput longInput) \<noteq> formatUserInput longInput
   \<and> endsWithWS (formatUserInput longInput)"
proof -
  have "length (formatUserInput (formatUserInput longInput)) = 999"
    by (simp add: formatUserInput_longInput formatUserInput_truncated)
  moreover have "length (formatUserInput longInput) = 1000"
    by (simp add: formatUserInput_longInput)
  ultimately have "formatUserInput (formatUserInput longInput) \<noteq> formatUserInput longInput"
    by (metis numeral_eq_iff semiring_norm(88))
  moreover have "endsWithWS (formatUserInput longInput)"
    by (simp add: formatUserInput_longInput endsWithWS_def isWhiteSpace_space)
  ultimately show ?thesis by blast
qed

lemma formatUserInput_example:
  "trim ([0xA0] @ js '' hi'' @ [0x3000, 0x09] @ js ''there '' @ [0xFEFF])
     = js ''hi'' @ [0x3000, 0x09] @ js ''there''"
  "collapse (js ''hi'' @ [0x3000, 0x09] @ js ''there'') = js ''hi there''"
  by (simp_all add: trim_def isWhiteSpace_def collapse_Cons collapse_Nil)

theorem formatUserInput_shape_witness:
  "formatUserInput ([0xA0] @ js '' hi'' @ [0x3000, 0x09] @ js ''there '' @ [0xFEFF]) = js ''hi there''
   \<and> \<not> endsWithWS (formatUserInput ([0xA0] @ js '' hi'' @ [0x3000, 0x09] @ js ''there '' @ [0xFEFF]))
   \<and> formatUserInput (formatUserInput ([0xA0] @ js '' hi'' @ [0x3000, 0x09] @ js ''there '' @ [0xFEFF]))
       = formatUserInput ([0xA0] @ js '' hi'' @ [0x3000, 0x09] @ js ''there '' @ [0xFEFF])
   \<and> endsWithWS (formatUserInput longInput)
   \<and> 1000 < length (collapse (trim longInput)) \<and> collapse (trim longInput) ! 999 = 0x20"
proof -
  let ?x = "[0xA0] @ js '' hi'' @ [0x3000, 0x09] @ js ''there '' @ [0xFEFF]"
  have e: "formatUserInput ?x = js ''hi there''"
    unfolding formatUserInput_eq formatUserInput_example by simp
  have n: "\<not> endsWithWS (js ''hi there'')"
    by (simp add: endsWithWS_def isWhiteSpace_def)
  note a = formatUserInput_shape [of ?x]
  note b = formatUserInput_shape [of longInput]
  from a e n have 1: "formatUserInput (formatUserInput ?x) = formatUserInput ?x"
    by metis
  have w: "endsWithWS (formatUserInput longInput)"
    by (simp add: formatUserInput_longInput endsWithWS_def isWhiteSpace_space)
  with b have 2: "1000 < length (collapse (trim longInput)) \<and> collapse (trim longInput) ! 999 = 0x20"
    by blast
  from e n 1 w 2 show ?thesis by metis
qed


subsection \<open>formatMessage\<close>

lemma exec_Chr: "exec (Chr c) s = (if s \<noteq> [] \<and> hd s = c then Some [c] else None)"
  by (cases s) (auto simp: exec_def)

lemma replace_newline: "replaceAll newlineRegex (\<lambda>_. (js ''<br>'')) s = nl2br s"
proof (induction s)
  case Nil
  then show ?case
    by (subst replaceAll.simps) (simp add: newlineRegex_def exec_Chr nl2br_def newline_def)
next
  case (Cons c cs)
  then show ?case
    by (subst replaceAll.simps) (simp add: newlineRegex_def exec_Chr nl2br_def newline_def)
qed

lemma ms_Seq_lit: "ms (Seq (lit w) r) s = (if prefix w s then ms r (drop (length w) s) else [])"
  by (simp add: ms_lit)

lemma ms_Seq_Opt_Chr:
  "ms (Seq (Opt (Chr c)) r) t = (if t \<noteq> [] \<and> hd t = c then ms r (tl t) else []) @ ms r t"
  by (cases t) auto

lemma prefix_Cons_left: "prefix (x # xs) s \<longleftrightarrow> s \<noteq> [] \<and> hd s = x \<and> prefix xs (tl s)"
  by (cases s) auto

lemma ms_urlRegex:
  "ms urlRegex s =
     (if prefix (js ''https://'') s then ms (Plus (Cls nonWS)) (drop 8 s)
      else if prefix (js ''http://'') s then ms (Plus (Cls nonWS)) (drop 7 s)
      else [])"
proof -
  have n: "(\<lambda>c. \<not> isWhiteSpace c) = nonWS"
    by (simp add: nonWS_def fun_eq_iff)
  show ?thesis
    unfolding urlRegex_def n ms_Seq_lit ms_Seq_Opt_Chr
    by (auto simp: prefix_Cons_left drop_Suc tl_drop numeral_eq_Suc drop_tl)
qed


lemma exec_after_prefix:
  assumes "prefix w s" "ms r s = ms (Plus (Cls P)) (drop (length w) s)"
  shows "exec r s =
     (if drop (length w) s \<noteq> [] \<and> P (hd (drop (length w) s))
      then Some (w @ takeWhile P (drop (length w) s)) else None)"
proof -
  let ?u = "drop (length w) s"
  from assms(1) have s: "s = w @ ?u"
    by (metis append_eq_conv_conj prefixE)
  show ?thesis
  proof (cases "?u \<noteq> [] \<and> P (hd ?u)")
    case True
    then obtain ts where "ms (Plus (Cls P)) ?u = dropWhile P ?u # ts"
      using ms_Plus_Cls_hd by blast
    with assms(2) have "exec r s = Some (take (length s - length (dropWhile P ?u)) s)"
      by (simp add: exec_def)
    moreover have "length s - length (dropWhile P ?u) = length w + length (takeWhile P ?u)"
    proof -
      have "length ?u = length (takeWhile P ?u) + length (dropWhile P ?u)"
        by (metis length_append takeWhile_dropWhile_id)
      moreover have "length s = length w + length ?u"
        using s by (metis length_append)
      ultimately show ?thesis by linarith
    qed
    moreover have "take (length w + length (takeWhile P ?u)) s = w @ takeWhile P ?u"
    proof -
      have "s = (w @ takeWhile P ?u) @ dropWhile P ?u"
        using s by simp
      then show ?thesis
        by (metis append_eq_conv_conj length_append)
    qed
    ultimately show ?thesis using True by simp
  next
    case False
    then have "ms (Plus (Cls P)) ?u = []"
      by (cases ?u) (auto simp: ms_Plus_Cls_Nil ms_Plus_Cls_Cons)
    with assms(2) False show ?thesis by (simp add: exec_def)
  qed
qed

lemma nonWS_http: "list_all nonWS (js ''https://'')" "list_all nonWS (js ''http://'')"
  by (simp_all add: nonWS_def isWhiteSpace_def)

lemma takeWhile_append_all: "list_all P w \<Longrightarrow> takeWhile P (w @ u) = w @ takeWhile P u"
  by (induction w) auto

lemma exec_urlRegex:
  "exec urlRegex s = (if startsUrl s then Some (takeWhile nonWS s) else None)"
proof (cases "prefix (js ''https://'') s")
  case True
  then obtain u where "s = (js ''https://'') @ u"
    by (auto elim: prefixE)
  then have s: "s = (js ''https://'') @ drop 8 s"
    by simp
  from True have np: "\<not> prefix (js ''http://'') s"
    by (auto simp: prefix_Cons_left)
  have l8: "length (js ''https://'') = 8" by simp
  have "ms urlRegex s = ms (Plus (Cls nonWS)) (drop 8 s)"
    using True by (simp only: ms_urlRegex if_True)
  from exec_after_prefix [OF True, unfolded l8, OF this]
  have "exec urlRegex s =
     (if drop 8 s \<noteq> [] \<and> nonWS (hd (drop 8 s))
      then Some ((js ''https://'') @ takeWhile nonWS (drop 8 s)) else None)"
    by simp
  moreover have "takeWhile nonWS s = (js ''https://'') @ takeWhile nonWS (drop 8 s)"
    using takeWhile_append_all [OF nonWS_http(1), of "drop 8 s"] s by metis
  ultimately show ?thesis
    using True np by (simp add: startsUrl_def)
next
  case False
  show ?thesis
  proof (cases "prefix (js ''http://'') s")
    case True
    then obtain u where "s = (js ''http://'') @ u"
      by (auto elim: prefixE)
    then have s: "s = (js ''http://'') @ drop 7 s"
      by simp
    have l7: "length (js ''http://'') = 7" by simp
    have "ms urlRegex s = ms (Plus (Cls nonWS)) (drop 7 s)"
      using True False by (simp only: ms_urlRegex if_True if_False)
    from exec_after_prefix [OF True, unfolded l7, OF this]
    have "exec urlRegex s =
       (if drop 7 s \<noteq> [] \<and> nonWS (hd (drop 7 s))
        then Some ((js ''http://'') @ takeWhile nonWS (drop 7 s)) else None)"
      by simp
    moreover have "takeWhile nonWS s = (js ''http://'') @ takeWhile nonWS (drop 7 s)"
      using takeWhile_append_all [OF nonWS_http(2), of "drop 7 s"] s by metis
    ultimately show ?thesis
      using True False by (simp add: startsUrl_def)
  next
    case f2: False
    with False show ?thesis
      by (simp add: ms_urlRegex exec_def startsUrl_def)
  qed
qed

lemma startsUrl_nonWS: "startsUrl (c # cs) \<Longrightarrow> nonWS c"
proof -
  assume "startsUrl (c # cs)"
  then have "c = 0x68"
    by (auto simp: startsUrl_def)
  then show ?thesis
    by (simp add: nonWS_def isWhiteSpace_def)
qed

lemma replace_urls: "replaceAll urlRegex newTabLink s = linkUrls s"
proof (induction s rule: linkUrls.induct)
  case 1
  show ?case
    by (subst replaceAll.simps) (simp add: exec_urlRegex startsUrl_def)
next
  case (2 c cs)
  show ?case
  proof (cases "startsUrl (c # cs)")
    case True
    then have c: "nonWS c" by (rule startsUrl_nonWS)
    have "drop (Suc (length (takeWhile nonWS cs))) (c # cs) = dropWhile nonWS cs"
      by (metis append_eq_conv_conj drop_Suc_Cons takeWhile_dropWhile_id)
    with True c 2 show ?thesis
      by (subst replaceAll.simps) (simp add: exec_urlRegex)
  next
    case False
    with 2 show ?thesis
      by (subst replaceAll.simps) (simp add: exec_urlRegex)
  qed
qed

lemma ms_phoneRegex:
  "ms phoneRegex s =
     (if startsIntlPhone s then [drop 13 s] else []) @ (if startsLocalPhone s then [drop 10 s] else [])"
proof -
  have l4: "length (js ''+254'') = 4" by simp
  have "(9 \<le> length s - 4) = (13 \<le> length s)"
    by linarith
  then have "ms (Seq (lit (js ''+254'')) (rep 9 (Cls isDigit))) s =
      (if startsIntlPhone s then [drop 13 s] else [])"
    unfolding ms_Seq_lit ms_rep_Cls l4 startsIntlPhone_def
    by simp
  moreover have "ms (rep 10 (Cls isDigit)) s = (if startsLocalPhone s then [drop 10 s] else [])"
    unfolding ms_rep_Cls startsLocalPhone_def by simp
  ultimately show ?thesis
    unfolding phoneRegex_def ms.simps(5) by simp
qed

lemma exec_phoneRegex:
  "exec phoneRegex s =
     (if startsIntlPhone s then Some (take 13 s)
      else if startsLocalPhone s then Some (take 10 s) else None)"
proof -
  have "startsIntlPhone s \<Longrightarrow> length s - (length s - 13) = 13"
    by (simp add: startsIntlPhone_def)
  moreover have "startsLocalPhone s \<Longrightarrow> length s - (length s - 10) = 10"
    by (simp add: startsLocalPhone_def)
  ultimately show ?thesis
    by (simp add: exec_def ms_phoneRegex)
qed

lemma replace_phones: "replaceAll phoneRegex telLink s = linkPhones s"
proof (induction s rule: linkPhones.induct)
  case 1
  show ?case
    by (subst replaceAll.simps) (simp add: exec_phoneRegex startsIntlPhone_def startsLocalPhone_def)
next
  case (2 c cs)
  show ?case
  proof (cases "startsIntlPhone (c # cs)")
    case True
    then have "min (length (c # cs)) 13 = 13" by (simp add: startsIntlPhone_def)
    with True 2 show ?thesis
      by (subst replaceAll.simps) (simp add: exec_phoneRegex numeral_eq_Suc)
  next
    case False
    show ?thesis
    proof (cases "startsLocalPhone (c # cs)")
      case True
      then have "min (length (c # cs)) 10 = 10" by (simp add: startsLocalPhone_def)
      with True False 2 show ?thesis
        by (subst replaceAll.simps) (simp add: exec_phoneRegex numeral_eq_Suc)
    next
      case f: False
      with False 2 show ?thesis
        by (subst replaceAll.simps) (simp add: exec_phoneRegex)
    qed
  qed
qed


lemma substitute_url: "substitute urlReplacement m = newTabLink m"
  by (simp add: urlReplacement_def newTabLink_def)

lemma substitute_phone: "substitute phoneReplacement m = telLink m"
  by (simp add: phoneReplacement_def telLink_def)

lemma substitute_url_fun: "substitute urlReplacement = newTabLink"
  by (rule ext) (rule substitute_url)

lemma substitute_phone_fun: "substitute phoneReplacement = telLink"
  by (rule ext) (rule substitute_phone)

lemma formatMessage_allowHTML:
  "formatMessage content True = linkPhones (linkUrls (nl2br content))"
proof (cases "content = []")
  case True
  then show ?thesis by (simp add: formatMessage_def nl2br_def)
next
  case False
  then show ?thesis
    by (simp only: formatMessage_def Let_def replace_newline replace_urls replace_phones
        substitute_url_fun substitute_phone_fun if_True if_False)
qed





subsection \<open>translate\<close>

lemma translate_own_entry:
  assumes "map_of translationsTable l = Some t" "map_of t key = Some s" "s \<noteq> []"
  shows "translate rt key (Some l) = Inr (Text s)"
  using assms by (simp add: translate_def tableGet_def js_or_def)

lemma no_constructor:
  "map_of translationsTable (js ''constructor'') = None"
  "map_of translations_en (js ''constructor'') = None"
  "map_of translations_en (js ''caller'') = None"
  "map_of translationsTable (js ''en'') = Some translations_en"
  by (simp_all add: translationsTable_def translations_en_def)

text \<open>
  C10 at the names that a plain object inherits. For the key \<^verbatim>\<open>constructor\<close> and the language
  \<^verbatim>\<open>en\<close>, \<open>translate\<close> returns the inherited value of that name, which is not a string, and
  not the key. For the language \<^verbatim>\<open>constructor\<close> the key is read from that inherited value, and
  an error thrown by that read is thrown by \<open>translate\<close>.
\<close>

theorem translate_inherited_property:
  "(inheritedProp rt (js ''constructor'') = Some v \<longrightarrow>
      translate rt (js ''constructor'') (Some (js ''en'')) = Inr (Other v))
   \<and> (inheritedProp rt (js ''constructor'') = Some v
        \<and> nativeRead rt (js ''constructor'') (js ''caller'') = Inl err \<longrightarrow>
      translate rt (js ''caller'') (Some (js ''constructor'')) = Inl err)"
proof -
  have 1: "translate rt (js ''constructor'') (Some (js ''en'')) = Inr (Other v)"
    if "inheritedProp rt (js ''constructor'') = Some v"
    using that unfolding translate_def Let_def tableGet_def js_or_def
    by (simp add: no_constructor del: js.simps)
  have 2: "translate rt (js ''caller'') (Some (js ''constructor'')) = Inl err"
    if "inheritedProp rt (js ''constructor'') = Some v"
      "nativeRead rt (js ''constructor'') (js ''caller'') = Inl err"
    using that unfolding translate_def Let_def
    by (simp add: no_constructor del: js.simps)
  from 1 2 show ?thesis by blast
qed

theorem translate_inherited_property_witness:
  "inheritedProp demoRuntime (js ''constructor'') = Some (js ''function Object() { [native code] }'')
   \<and> nativeRead demoRuntime (js ''constructor'') (js ''caller'') = Inl (Error (js ''TypeError''))
   \<and> translate demoRuntime (js ''constructor'') (Some (js ''en''))
       = Inr (Other (js ''function Object() { [native code] }''))
   \<and> translate demoRuntime (js ''caller'') (Some (js ''constructor'')) = Inl (Error (js ''TypeError''))"
proof -
  have a: "inheritedProp demoRuntime (js ''constructor'') = Some (js ''function Object() { [native code] }'')"
    by (simp add: demoRuntime_def)
  have b: "nativeRead demoRuntime (js ''constructor'') (js ''caller'') = Inl (Error (js ''TypeError''))"
    by (simp add: demoRuntime_def)
  note th = translate_inherited_property
    [of demoRuntime "js ''function Object() { [native code] }''" "Error (js ''TypeError'')"]
  from th a have c: "translate demoRuntime (js ''constructor'') (Some (js ''en''))
       = Inr (Other (js ''function Object() { [native code] }''))"
    by blast
  from th a b have d: "translate demoRuntime (js ''caller'') (Some (js ''constructor''))
       = Inl (Error (js ''TypeError''))"
    by blast
  from a b c d show ?thesis by blast
qed


subsection \<open>APIService\<close>

lemma tryBody_failed: "failed out \<Longrightarrow> \<exists>m. tryBody out = Inl (Error m)"
  by (cases out) (auto simp: tryBody_def)

lemma tryBody_ok: "tryBody (Responded True status (Inr j)) = Inr j"
  by (simp add: tryBody_def)

lemma sendMessage_request_eq:
  "postRequest (baseURL @ endpoint_chat)
      [(js ''user_id'', uid), (js ''message'', message), (js ''language'', language), (js ''platform'', platform)]
   = chatRequest message uid language platform"
  by (simp add: postRequest_def chatRequest_def endpoint_chat_def)

lemma api_sendMessage_unfold:
  "api_sendMessage server message uid language platform log =
     (let rq = chatRequest message uid (case language of None \<Rightarrow> js ''en'' | Some l \<Rightarrow> l)
                 (case platform of None \<Rightarrow> js ''web'' | Some p \<Rightarrow> p)
      in (case tryBody (server (length log) rq) of
            Inr j \<Rightarrow> Inr j
          | Inl error \<Rightarrow> Inl (Error (js ''Failed to send message. Please try again.'')),
          log @ [rq]))"
  by (simp add: api_sendMessage_def fetch_def sendMessage_request_eq Let_def del: js.simps)

text \<open>
  C3. \<open>api_sendMessage\<close> issues exactly one request: a POST to the base URL followed by
  \<^verbatim>\<open>/api/v1/chat\<close> whose body is the object of \<^verbatim>\<open>user_id\<close>, \<^verbatim>\<open>message\<close>, \<^verbatim>\<open>language\<close> and
  \<^verbatim>\<open>platform\<close>, the language being \<^verbatim>\<open>en\<close> and the platform \<^verbatim>\<open>web\<close> when they are omitted; when
  the response is ok, it returns the parsed body.
\<close>

theorem api_sendMessage_posts_once:
  "snd (api_sendMessage server message uid language platform log) =
     log @ [chatRequest message uid (case language of None \<Rightarrow> js ''en'' | Some l \<Rightarrow> l)
                 (case platform of None \<Rightarrow> js ''web'' | Some p \<Rightarrow> p)]
   \<and> (server (length log)
         (chatRequest message uid (case language of None \<Rightarrow> js ''en'' | Some l \<Rightarrow> l)
                 (case platform of None \<Rightarrow> js ''web'' | Some p \<Rightarrow> p))
        = Responded True status (Inr j)
       \<longrightarrow> fst (api_sendMessage server message uid language platform log) = Inr j)"
  by (simp add: api_sendMessage_unfold Let_def tryBody_ok)

theorem api_sendMessage_posts_once_witness:
  "(\<lambda>n rq. Responded True 200 (Inr (JStr (js ''Habari''))) :: jsval outcome) (length [])
      (chatRequest (js ''hello'') (js ''user_1'') (js ''en'') (js ''web'')) = Responded True 200 (Inr (JStr (js ''Habari'')))
   \<and> api_sendMessage (\<lambda>n rq. Responded True 200 (Inr (JStr (js ''Habari'')))) (js ''hello'') (js ''user_1'') None None []
       = (Inr (JStr (js ''Habari'')),
          [\<lparr>req_url = js ''http://localhost:8000/api/v1/chat'', req_method = js ''POST'',
            req_headers = [(js ''Content-Type'', js ''application/json'')],
            req_body = Some [(js ''user_id'', js ''user_1''), (js ''message'', js ''hello''),
                             (js ''language'', js ''en''), (js ''platform'', js ''web'')]\<rparr>])"
proof -
  note th = api_sendMessage_posts_once
    [of "\<lambda>n rq. Responded True 200 (Inr (JStr (js ''Habari'')))" "js ''hello''" "js ''user_1''" None None "[]"
        200 "JStr (js ''Habari'')"]
  have c: "chatRequest (js ''hello'') (js ''user_1'') (js ''en'') (js ''web'') =
     \<lparr>req_url = js ''http://localhost:8000/api/v1/chat'', req_method = js ''POST'',
            req_headers = [(js ''Content-Type'', js ''application/json'')],
            req_body = Some [(js ''user_id'', js ''user_1''), (js ''message'', js ''hello''),
                             (js ''language'', js ''en''), (js ''platform'', js ''web'')]\<rparr>"
    by (simp add: chatRequest_def baseURL_def)
  from th c show ?thesis
    by (simp add: prod_eq_iff)
qed

lemma api_getStats_unfold:
  "api_getStats server log =
     (case tryBody (server (length log) (getRequest (baseURL @ endpoint_stats))) of
        Inr j \<Rightarrow> j | Inl error \<Rightarrow> defaultStats,
      log @ [getRequest (baseURL @ endpoint_stats)])"
  by (simp add: api_getStats_def fetch_def defaultStats_def split: sum.split)

lemma api_checkHealth_unfold:
  "api_checkHealth server log =
     (case tryBody (server (length log) (getRequest (baseURL @ endpoint_health))) of
        Inr j \<Rightarrow> j
      | Inl (Error message) \<Rightarrow> [(js ''status'', JStr (js ''unhealthy'')), (js ''error'', JStr message)],
      log @ [getRequest (baseURL @ endpoint_health)])"
  by (simp add: api_checkHealth_def fetch_def)

lemma api_getResources_unfold:
  "api_getResources server log =
     (case tryBody (server (length log) (getRequest (baseURL @ endpoint_resources))) of
        Inr j \<Rightarrow> Inr j | Inl error \<Rightarrow> Inl (Error (js ''Failed to load resources'')),
      log @ [getRequest (baseURL @ endpoint_resources)])"
  by (simp add: api_getResources_def fetch_def)

lemma api_sendFeedback_unfold:
  "api_sendFeedback server uid messageId feedback log =
     (let rq = postRequest (baseURL @ endpoint_chat @ js ''/feedback'')
                [(js ''user_id'', uid), (js ''message_id'', messageId), (js ''feedback'', feedback)]
      in (case tryBody (server (length log) rq) of
            Inr j \<Rightarrow> Inr j | Inl error \<Rightarrow> Inl (Error (js ''Failed to send feedback'')),
          log @ [rq]))"
  by (simp add: api_sendFeedback_def fetch_def Let_def)

text \<open>
  C9. \<open>api_getStats\<close> and \<open>api_checkHealth\<close> return a value whatever the outcome (their
  result type has no error): on a rejected fetch or a response that is not ok, the statistics
  are the three zeros and the health report has the status \<^verbatim>\<open>unhealthy\<close>; on an ok response
  each returns the parsed body. On the same failures \<open>api_sendMessage\<close>, \<open>api_getResources\<close>
  and \<open>api_sendFeedback\<close> throw their own error.
\<close>

theorem api_failure_handling:
  "(failed (statsServer (length log) (getRequest (baseURL @ endpoint_stats))) \<longrightarrow>
      fst (api_getStats statsServer log) =
        \<lparr>active_users = Some (JNum 0), total_conversations = Some (JNum 0),
         resources_available = Some (JNum 0)\<rparr>)
   \<and> (statsServer (length log) (getRequest (baseURL @ endpoint_stats)) = Responded True st1 (Inr s) \<longrightarrow>
      fst (api_getStats statsServer log) = s)
   \<and> (failed (healthServer (length log) (getRequest (baseURL @ endpoint_health))) \<longrightarrow>
      map_of (fst (api_checkHealth healthServer log)) (js ''status'') = Some (JStr (js ''unhealthy'')))
   \<and> (healthServer (length log) (getRequest (baseURL @ endpoint_health)) = Responded True st2 (Inr h) \<longrightarrow>
      fst (api_checkHealth healthServer log) = h)
   \<and> (failed (chatServer (length log) (chatRequest message uid language platform)) \<longrightarrow>
      fst (api_sendMessage chatServer message uid (Some language) (Some platform) log)
        = Inl (Error (js ''Failed to send message. Please try again.'')))
   \<and> (failed (resourcesServer (length log) (getRequest (baseURL @ endpoint_resources))) \<longrightarrow>
      fst (api_getResources resourcesServer log) = Inl (Error (js ''Failed to load resources'')))
   \<and> (failed (feedbackServer (length log)
          (postRequest (baseURL @ endpoint_chat @ js ''/feedback'')
             [(js ''user_id'', uid), (js ''message_id'', messageId), (js ''feedback'', feedback)])) \<longrightarrow>
      fst (api_sendFeedback feedbackServer uid messageId feedback log)
        = Inl (Error (js ''Failed to send feedback'')))"
proof -
  have 1: "failed (statsServer (length log) (getRequest (baseURL @ endpoint_stats))) \<longrightarrow>
      fst (api_getStats statsServer log) =
        \<lparr>active_users = Some (JNum 0), total_conversations = Some (JNum 0),
         resources_available = Some (JNum 0)\<rparr>"
    using tryBody_failed [of "statsServer (length log) (getRequest (baseURL @ endpoint_stats))"]
    by (auto simp: api_getStats_unfold defaultStats_def)
  have 2: "statsServer (length log) (getRequest (baseURL @ endpoint_stats)) = Responded True st1 (Inr s) \<longrightarrow>
      fst (api_getStats statsServer log) = s"
    by (simp add: api_getStats_unfold tryBody_ok)
  have 3: "failed (healthServer (length log) (getRequest (baseURL @ endpoint_health))) \<longrightarrow>
      map_of (fst (api_checkHealth healthServer log)) (js ''status'') = Some (JStr (js ''unhealthy''))"
    using tryBody_failed [of "healthServer (length log) (getRequest (baseURL @ endpoint_health))"]
    by (auto simp: api_checkHealth_unfold)
  have 4: "healthServer (length log) (getRequest (baseURL @ endpoint_health)) = Responded True st2 (Inr h) \<longrightarrow>
      fst (api_checkHealth healthServer log) = h"
    by (simp add: api_checkHealth_unfold tryBody_ok)
  have 5: "failed (chatServer (length log) (chatRequest message uid language platform)) \<longrightarrow>
      fst (api_sendMessage chatServer message uid (Some language) (Some platform) log)
        = Inl (Error (js ''Failed to send message. Please try again.''))"
    using tryBody_failed [of "chatServer (length log) (chatRequest message uid language platform)"]
    by (auto simp: api_sendMessage_unfold)
  have 6: "failed (resourcesServer (length log) (getRequest (baseURL @ endpoint_resources))) \<longrightarrow>
      fst (api_getResources resourcesServer log) = Inl (Error (js ''Failed to load resources''))"
    using tryBody_failed [of "resourcesServer (length log) (getRequest (baseURL @ endpoint_resources))"]
    by (auto simp: api_getResources_unfold)
  have 7: "failed (feedbackServer (length log)
          (postRequest (baseURL @ endpoint_chat @ js ''/feedback'')
             [(js ''user_id'', uid), (js ''message_id'', messageId), (js ''feedback'', feedback)])) \<longrightarrow>
      fst (api_sendFeedback feedbackServer uid messageId feedback log)
        = Inl (Error (js ''Failed to send feedback''))"
    using tryBody_failed [of "feedbackServer (length log)
          (postRequest (baseURL @ endpoint_chat @ js ''/feedback'')
             [(js ''user_id'', uid), (js ''message_id'', messageId), (js ''feedback'', feedback)])"]
    by (auto simp: api_sendFeedback_unfold Let_def)
  from 1 2 3 4 5 6 7 show ?thesis by blast
qed

theorem api_failure_handling_witness:
  "failed (Rejected (js ''Failed to fetch'') :: stats outcome)
   \<and> fst (api_getStats (\<lambda>n rq. Rejected (js ''Failed to fetch'')) []) =
        \<lparr>active_users = Some (JNum 0), total_conversations = Some (JNum 0),
         resources_available = Some (JNum 0)\<rparr>
   \<and> failed (Responded False 503 (Inr []) :: (jsstring \<times> jsval) list outcome)
   \<and> map_of (fst (api_checkHealth (\<lambda>n rq. Responded False 503 (Inr [])) [])) (js ''status'')
        = Some (JStr (js ''unhealthy''))
   \<and> failed (Responded False 500 (Inr JNull) :: jsval outcome)
   \<and> fst (api_sendMessage (\<lambda>n rq. Responded False 500 (Inr JNull)) (js ''hi'') (js ''u'') (Some (js ''en'')) (Some (js ''web'')) [])
        = Inl (Error (js ''Failed to send message. Please try again.''))
   \<and> fst (api_getResources (\<lambda>n rq. Responded False 500 (Inr JNull)) [])
        = Inl (Error (js ''Failed to load resources''))
   \<and> fst (api_sendFeedback (\<lambda>n rq. Responded False 500 (Inr JNull)) (js ''u'') (js ''m'') (js ''helpful'') [])
        = Inl (Error (js ''Failed to send feedback''))
   \<and> fst (api_getStats (\<lambda>n rq. Responded True 200
             (Inr \<lparr>active_users = Some (JNum 3), total_conversations = None,
                   resources_available = Some (JNum 7)\<rparr>)) [])
        = \<lparr>active_users = Some (JNum 3), total_conversations = None,
           resources_available = Some (JNum 7)\<rparr>
   \<and> fst (api_checkHealth (\<lambda>n rq. Responded True 200 (Inr [(js ''status'', JStr (js ''healthy''))])) [])
        = [(js ''status'', JStr (js ''healthy''))]"
proof -
  note bad = api_failure_handling
    [of "\<lambda>n rq. Rejected (js ''Failed to fetch'')" "[]" 0 "defaultStats"
        "\<lambda>n rq. Responded False 503 (Inr [])" 0 "[]"
        "\<lambda>n rq. Responded False 500 (Inr JNull)" "js ''hi''" "js ''u''" "js ''en''" "js ''web''"
        "\<lambda>n rq. Responded False 500 (Inr JNull)"
        "\<lambda>n rq. Responded False 500 (Inr JNull)" "js ''m''" "js ''helpful''"]
  note good = api_failure_handling
    [of "\<lambda>n rq. Responded True 200
             (Inr \<lparr>active_users = Some (JNum 3), total_conversations = None,
                   resources_available = Some (JNum 7)\<rparr>)" "[]" 200
        "\<lparr>active_users = Some (JNum 3), total_conversations = None,
                   resources_available = Some (JNum 7)\<rparr>"
        "\<lambda>n rq. Responded True 200 (Inr [(js ''status'', JStr (js ''healthy''))])" 200
        "[(js ''status'', JStr (js ''healthy''))]"
        "\<lambda>n rq. Responded False 500 (Inr JNull)" "js ''hi''" "js ''u''" "js ''en''" "js ''web''"
        "\<lambda>n rq. Responded False 500 (Inr JNull)"
        "\<lambda>n rq. Responded False 500 (Inr JNull)" "js ''m''" "js ''helpful''"]
  from bad good show ?thesis
    by simp
qed



subsection \<open>ChatInterface\<close>

declare natToString.simps [simp del]

lemma translate_errorMessage:
  "translate rt (js ''errorMessage'') (Some (langCode l)) = Inr (Text (errorMessageText l))"
  by (cases l)
    (simp_all add: translate_def tableGet_def js_or_def translationsTable_def
      translations_en_def translations_sw_def)

lemma translate_crisisMessage:
  "translate rt (js ''crisisMessage'') (Some (langCode l)) = Inr (Text (crisisMessageText l))"
  by (cases l)
    (simp_all add: translate_def tableGet_def js_or_def translationsTable_def
      translations_en_def translations_sw_def)

lemma foldl_append_concat: "foldl (\<lambda>h r. h @ f r) h0 rs = h0 @ concat (map f rs)"
  by (induction rs arbitrary: h0) simp_all

lemma formatCrisisResources_eq:
  "formatCrisisResources rt (Some rs) (Some (langCode l)) = Inr (resourcesMarkup l rs)"
proof (cases "rs = []")
  case True
  then show ?thesis by (simp add: formatCrisisResources_def resourcesMarkup_def)
next
  case False
  then show ?thesis
    unfolding formatCrisisResources_def resourcesMarkup_def Let_def
    by (simp add: translate_crisisMessage foldl_append_concat formatMessage_allowHTML
        del: js.simps langCode.simps crisisMessageText.simps)
qed

lemma replicate_spaces:
  "replicate 8 x = [x, x, x, x, x, x, x, x]"
  "replicate 12 x = [x, x, x, x, x, x, x, x, x, x, x, x]"
  "replicate 16 x = [x, x, x, x, x, x, x, x, x, x, x, x, x, x, x, x]"
  by (simp_all add: numeral_eq_Suc)

lemma bubble_eq:
  \<open>bubble html =
     [0x0A] @ js ''            <div class="message-bubble">''
     @ [0x0A] @ js ''                '' @ html
     @ [0x0A] @ js ''            </div>''
     @ [0x0A] @ js ''        ''\<close>
  by (simp add: bubble_def newline_def replicate_spaces)

lemma sendMessage_early:
  "formatUserInput (inputValue st) = [] \<or> isTyping st \<Longrightarrow> sendMessage e st = st"
  by (auto simp: sendMessage_def Let_def)

lemma addMessage_eq:
  "addMessage e c t m st =
     st\<lparr>messagesNode := messagesNode st @ [messageElement e (tick st) c t],
        timers := timers st @ [(100, ScrollMessages)],
        messageHistory := messageHistory st @ [historyEntry e (tick st) c t m],
        tick := Suc (tick st)\<rparr>"
  unfolding addMessage_def scrollToBottom_def Let_def messageElement_def historyEntry_def
    bubble_eq formatMessage_allowHTML
  by (simp del: js.simps)

lemma showTyping_eq:
  "showTyping b st =
     st\<lparr>isTyping := b, typingShown := b, sendDisabled := b,
        timers := (if b then timers st @ [(100, ScrollMessages)] else timers st)\<rparr>"
  by (simp add: showTyping_def scrollToBottom_def Let_def)

lemma showCrisisAlert_eq: "showCrisisAlert rt rs st = Inr (alertShown rs st)"
  by (simp add: showCrisisAlert_def formatCrisisResources_eq alertShown_def Let_def
      del: langCode.simps)

lemma updateStats_eq:
  "updateStats e st =
     st\<lparr>requests := requests st @ [getRequest (baseURL @ endpoint_stats)],
        activeUsersText := toText (orZero (active_users (fst (api_getStats (env_stats e) (requests st))))),
        totalConversationsText :=
          toText (orZero (total_conversations (fst (api_getStats (env_stats e) (requests st))))),
        resourcesAvailableText :=
          toText (orZero (resources_available (fst (api_getStats (env_stats e) (requests st)))))\<rparr>"
  by (simp add: updateStats_def api_getStats_unfold Let_def)

lemma catchBlock_eq:
  "catchBlock e st =
     addMessage e (errorMessageText (currentLanguage st)) (js ''bot'') None (showTyping False st)"
proof -
  have l: "currentLanguage (showTyping False st) = currentLanguage st"
    by (simp add: showTyping_eq)
  show ?thesis
    unfolding catchBlock_def Let_def l translate_errorMessage
    by simp
qed

lemma afterUser_fields:
  "requests (afterUser e st) = requests st"
  "userId (afterUser e st) = userId st"
  "currentLanguage (afterUser e st) = currentLanguage st"
  "tick (afterUser e st) = Suc (tick st)"
  "crisisShown (afterUser e st) = crisisShown st"
  "crisisResourcesHTML (afterUser e st) = crisisResourcesHTML st"
  "uncaught (afterUser e st) = uncaught st"
  "messagesNode (afterUser e st) =
     messagesNode st @ [messageElement e (tick st) (formatUserInput (inputValue st)) (js ''user'')]"
  "messageHistory (afterUser e st) =
     messageHistory st @ [historyEntry e (tick st) (formatUserInput (inputValue st)) (js ''user'') None]"
  by (simp_all add: afterUser_def showTyping_eq autoResizeTextarea_def addMessage_eq
      del: js.simps)

lemma sendMessage_sent:
  assumes "formatUserInput (inputValue st) \<noteq> []" "\<not> isTyping st"
  shows "sendMessage e st =
     (let st2 = (afterUser e st)\<lparr>requests := requests st @
                  [chatRequest (formatUserInput (inputValue st)) (userId st)
                     (langCode (currentLanguage st)) (js ''web'')]\<rparr>
      in case chatOutcome e st of
           Inr resp \<Rightarrow>
             updateStats e
               ((if is_crisis resp \<and> resources resp \<noteq> None
                 then alertShown (the (resources resp)) else id)
                  (addMessage e (response resp)
                     (if is_crisis resp then js ''crisis'' else js ''bot'')
                     (Some \<lparr>meta_isCrisis = is_crisis resp, meta_confidence = confidence resp,
                            meta_resources = resources resp\<rparr>) (showTyping False st2)))
         | Inl error \<Rightarrow>
             addMessage e (errorMessageText (currentLanguage st)) (js ''bot'') None
               (showTyping False st2))"
proof -
  have api: "api_sendMessage (env_chat e) (formatUserInput (inputValue st)) (userId st)
        (Some (langCode (currentLanguage st))) (Some (js ''web'')) (requests st)
      = (chatOutcome e st, requests st @
           [chatRequest (formatUserInput (inputValue st)) (userId st)
              (langCode (currentLanguage st)) (js ''web'')])"
    by (simp add: chatOutcome_def api_sendMessage_unfold Let_def del: js.simps langCode.simps)
  have f: "userId (afterUser e st) = userId st" "requests (afterUser e st) = requests st"
    "currentLanguage (afterUser e st) = currentLanguage st"
    by (simp_all add: afterUser_fields)
  have l: "\<And>x. currentLanguage ((afterUser e st)\<lparr>requests := x\<rparr>) = currentLanguage st"
    by (simp add: afterUser_fields)
  show ?thesis
    using assms
    unfolding sendMessage_def Let_def afterUser_def [symmetric] f api catchBlock_eq
      showCrisisAlert_eq
    by (auto simp: l split: sum.split simp del: js.simps langCode.simps)
qed


text \<open>
  C6. \<open>updateStats\<close> sets the text of the three statistics nodes to the fields
  \<^verbatim>\<open>active_users\<close>, \<^verbatim>\<open>total_conversations\<close> and \<^verbatim>\<open>resources_available\<close> of the statistics that
  \<open>api_getStats\<close> returns, with \<^verbatim>\<open>0\<close> for a field that is missing or falsy; apart from the
  request it sends, nothing else of the state changes.
\<close>

theorem updateStats_sets_three_nodes:
  "updateStats e st =
     st\<lparr>requests := requests st @ [getRequest (baseURL @ endpoint_stats)],
        activeUsersText := toText (orZero (active_users (fst (api_getStats (env_stats e) (requests st))))),
        totalConversationsText :=
          toText (orZero (total_conversations (fst (api_getStats (env_stats e) (requests st))))),
        resourcesAvailableText :=
          toText (orZero (resources_available (fst (api_getStats (env_stats e) (requests st)))))\<rparr>
   \<and> (truthy v \<longrightarrow> toText (orZero v) = toText (the v))
   \<and> (\<not> truthy v \<longrightarrow> toText (orZero v) = js ''0'')"
proof -
  have "natToString 0 = js ''0''"
    by (subst natToString.simps) (simp add: digitChar_def)
  then have "\<not> truthy v \<longrightarrow> toText (orZero v) = js ''0''"
    by (simp add: orZero_def)
  moreover have "truthy v \<longrightarrow> toText (orZero v) = toText (the v)"
    by (simp add: orZero_def)
  ultimately show ?thesis
    using updateStats_eq by blast
qed

lemma natToString_12: "natToString 12 = js ''12''"
  by (simp add: natToString.simps [of 12] natToString.simps [of 1] natToString.simps [of "Suc 0"]
      digitChar_def)

theorem updateStats_sets_three_nodes_witness:
  "truthy (Some (JNum 12)) \<and> \<not> truthy None
   \<and> updateStats
        (demoEnv (Rejected (js ''down''))
           (Responded True 200
              (Inr \<lparr>active_users = Some (JNum 12), total_conversations = None,
                    resources_available = Some (JStr [])\<rparr>)))
        (freshState En [])
      = (freshState En [])\<lparr>requests := [getRequest (js ''http://localhost:8000/api/v1/stats'')],
                            activeUsersText := js ''12'', totalConversationsText := js ''0'',
                            resourcesAvailableText := js ''0''\<rparr>"
proof -
  let ?e = "demoEnv (Rejected (js ''down''))
           (Responded True 200
              (Inr \<lparr>active_users = Some (JNum 12), total_conversations = None,
                    resources_available = Some (JStr [])\<rparr>))"
  have r: "requests (freshState En []) = []" by (simp add: freshState_def)
  have g: "fst (api_getStats (env_stats ?e) []) =
      \<lparr>active_users = Some (JNum 12), total_conversations = None,
       resources_available = Some (JStr [])\<rparr>"
    by (simp add: api_getStats_unfold demoEnv_def tryBody_def)
  have t: "truthy (Some (JNum 12))" "\<not> truthy None" "\<not> truthy (Some (JStr []))"
    by simp_all
  have u: "getRequest (baseURL @ endpoint_stats)
      = getRequest (js ''http://localhost:8000/api/v1/stats'')"
    by (simp add: baseURL_def endpoint_stats_def)
  note a = updateStats_sets_three_nodes [of ?e "freshState En []" "Some (JNum 12)"]
  note b = updateStats_sets_three_nodes [of ?e "freshState En []" None]
  note c = updateStats_sets_three_nodes [of ?e "freshState En []" "Some (JStr [])"]
  from a t have 1: "toText (orZero (Some (JNum 12))) = js ''12''"
    by (simp add: natToString_12)
  from b t have 2: "toText (orZero None) = js ''0''" by blast
  from c t have 3: "toText (orZero (Some (JStr []))) = js ''0''" by blast
  have "updateStats ?e (freshState En []) =
      (freshState En [])\<lparr>requests := [getRequest (js ''http://localhost:8000/api/v1/stats'')],
                         activeUsersText := js ''12'', totalConversationsText := js ''0'',
                         resourcesAvailableText := js ''0''\<rparr>"
    unfolding updateStats_eq r g u by (simp only: stats.simps 1 2 3 append_Nil)
  with t show ?thesis by blast
qed

lemma requests_fields:
  "requests (addMessage e c t m st) = requests st"
  "requests (showTyping b st) = requests st"
  "requests (alertShown rs st) = requests st"
  "requests (updateStats e st) = requests st @ [getRequest (baseURL @ endpoint_stats)]"
  by (simp_all add: addMessage_eq showTyping_eq alertShown_def updateStats_eq)

text \<open>
  C7. When the formatted input is empty or a reply is pending, \<open>sendMessage\<close> returns the
  state as it was: no request, no message, the input as typed. Otherwise the request it sends
  carries exactly \<open>formatUserInput\<close> of the input as the message.
\<close>

theorem sendMessage_forwards_formatted_input:
  "(formatUserInput (inputValue st) = [] \<or> isTyping st \<longrightarrow> sendMessage e st = st)
   \<and> (formatUserInput (inputValue st) \<noteq> [] \<and> \<not> isTyping st \<longrightarrow>
        requests (sendMessage e st) =
          requests st
          @ [chatRequest (formatUserInput (inputValue st)) (userId st)
               (langCode (currentLanguage st)) (js ''web'')]
          @ (case chatOutcome e st of
               Inr r \<Rightarrow> [getRequest (baseURL @ endpoint_stats)]
             | Inl err \<Rightarrow> []))"
proof -
  have "requests (sendMessage e st) =
          requests st
          @ [chatRequest (formatUserInput (inputValue st)) (userId st)
               (langCode (currentLanguage st)) (js ''web'')]
          @ (case chatOutcome e st of
               Inr r \<Rightarrow> [getRequest (baseURL @ endpoint_stats)]
             | Inl err \<Rightarrow> [])"
    if "formatUserInput (inputValue st) \<noteq> []" "\<not> isTyping st"
    using sendMessage_sent [OF that, of e]
    by (simp add: Let_def requests_fields split: sum.split del: js.simps langCode.simps)
  then show ?thesis
    using sendMessage_early by blast
qed

lemma freshState_fields:
  "inputValue (freshState l v) = v" "isTyping (freshState l v) = False"
  "requests (freshState l v) = []" "userId (freshState l v) = js ''user_1''"
  "currentLanguage (freshState l v) = l" "crisisShown (freshState l v) = False"
  "crisisResourcesHTML (freshState l v) = []"
  "tick (freshState l v) = 0" "messagesNode (freshState l v) = []"
  "messageHistory (freshState l v) = []"
  by (simp_all add: freshState_def)

lemma chatOutcome_demoEnv:
  "chatOutcome (demoEnv (Responded True status (Inr r)) s) st = Inr r"
  "chatOutcome (demoEnv (Rejected m) s) st
     = Inl (Error (js ''Failed to send message. Please try again.''))"
  by (simp_all add: chatOutcome_def api_sendMessage_unfold demoEnv_def tryBody_def Let_def)

lemma formatUserInput_blank: "formatUserInput (js ''   '') = []"
  by (simp add: formatUserInput_eq trim_def isWhiteSpace_def collapse_Nil)

lemma formatUserInput_hello: "formatUserInput (js '' hello  world '') = js ''hello world''"
  by (simp add: formatUserInput_eq trim_def isWhiteSpace_def collapse_Nil collapse_Cons)

theorem sendMessage_forwards_formatted_input_witness:
  "formatUserInput (inputValue (freshState En (js ''   ''))) = []
   \<and> sendMessage (demoEnv (Responded True 200 (Inr calmReply)) (Rejected (js ''down'')))
        (freshState En (js ''   '')) = freshState En (js ''   '')
   \<and> formatUserInput (inputValue (freshState En (js '' hello  world ''))) = js ''hello world''
   \<and> \<not> isTyping (freshState En (js '' hello  world ''))
   \<and> requests (sendMessage (demoEnv (Responded True 200 (Inr calmReply)) (Rejected (js ''down'')))
        (freshState En (js '' hello  world '')))
      = [\<lparr>req_url = js ''http://localhost:8000/api/v1/chat'', req_method = js ''POST'',
          req_headers = [(js ''Content-Type'', js ''application/json'')],
          req_body = Some [(js ''user_id'', js ''user_1''), (js ''message'', js ''hello world''),
                           (js ''language'', js ''en''), (js ''platform'', js ''web'')]\<rparr>,
         \<lparr>req_url = js ''http://localhost:8000/api/v1/stats'', req_method = js ''GET'',
          req_headers = [], req_body = None\<rparr>]"
proof -
  let ?e = "demoEnv (Responded True 200 (Inr calmReply)) (Rejected (js ''down''))"
  note a = sendMessage_forwards_formatted_input [of "freshState En (js ''   '')" ?e]
  note b = sendMessage_forwards_formatted_input [of "freshState En (js '' hello  world '')" ?e]
  have 1: "formatUserInput (inputValue (freshState En (js ''   ''))) = []"
    by (simp only: freshState_fields formatUserInput_blank)
  have 2: "formatUserInput (inputValue (freshState En (js '' hello  world ''))) = js ''hello world''"
    by (simp only: freshState_fields formatUserInput_hello)
  have 3: "\<not> isTyping (freshState En (js '' hello  world ''))"
    by (simp add: freshState_fields)
  from a 1 have 4: "sendMessage ?e (freshState En (js ''   '')) = freshState En (js ''   '')"
    by blast
  have n: "formatUserInput (inputValue (freshState En (js '' hello  world ''))) \<noteq> []"
    unfolding 2 by simp
  from b n 3 have "requests (sendMessage ?e (freshState En (js '' hello  world ''))) =
          requests (freshState En (js '' hello  world ''))
          @ [chatRequest (formatUserInput (inputValue (freshState En (js '' hello  world ''))))
               (userId (freshState En (js '' hello  world '')))
               (langCode (currentLanguage (freshState En (js '' hello  world '')))) (js ''web'')]
          @ (case chatOutcome ?e (freshState En (js '' hello  world '')) of
               Inr r \<Rightarrow> [getRequest (baseURL @ endpoint_stats)]
             | Inl err \<Rightarrow> [])"
    by blast
  then have 5: "requests (sendMessage ?e (freshState En (js '' hello  world '')))
      = [\<lparr>req_url = js ''http://localhost:8000/api/v1/chat'', req_method = js ''POST'',
          req_headers = [(js ''Content-Type'', js ''application/json'')],
          req_body = Some [(js ''user_id'', js ''user_1''), (js ''message'', js ''hello world''),
                           (js ''language'', js ''en''), (js ''platform'', js ''web'')]\<rparr>,
         \<lparr>req_url = js ''http://localhost:8000/api/v1/stats'', req_method = js ''GET'',
          req_headers = [], req_body = None\<rparr>]"
    by (simp add: freshState_fields chatOutcome_demoEnv formatUserInput_hello [simplified]
        chatRequest_def getRequest_def baseURL_def endpoint_stats_def)
  from 1 2 3 4 5 show ?thesis by blast
qed






























end
